theory Spec2Isabelle
  imports Complex_Main
begin

section \<open>Python values and failures\<close>

text \<open>
  The simulator is Python: numbers are modelled as \<open>real\<close> (exact arithmetic in place of
  binary floating point), Python integers as \<open>int\<close>, a raised exception as the left
  summand of a result.
\<close>

datatype py_error = IndexError | KeyError | TypeError | RuntimeError | ZeroDivisionError

text \<open>\<^verbatim>\<open>range(a, b)\<close>: the integers from \<open>a\<close> up to, and excluding, \<open>b\<close>.\<close>

definition py_range :: "int \<Rightarrow> int \<Rightarrow> int list" where
  "py_range a b = [a..b - 1]"

section \<open>Contribution schedule (app.py)\<close>

record period =
  contribution :: real
  start_month :: int

text \<open>
  The loop of \<^verbatim>\<open>get_contribution_for_month\<close>: \<open>acc\<close> is
  \<^verbatim>\<open>applicable_contribution\<close>; the \<^verbatim>\<open>else: break\<close> branch returns it.
\<close>

fun scan_periods :: "int \<Rightarrow> period list \<Rightarrow> real \<Rightarrow> real" where
  "scan_periods month [] acc = acc"
| "scan_periods month (p # ps) acc =
     (if month \<ge> start_month p then scan_periods month ps (contribution p) else acc)"

text \<open>\<^verbatim>\<open>contribution_periods[0]\<close> raises IndexError on an empty list.\<close>

definition get_contribution_for_month :: "int \<Rightarrow> period list \<Rightarrow> py_error + real" where
  "get_contribution_for_month month contribution_periods =
     (case contribution_periods of
        [] \<Rightarrow> Inl IndexError
      | p0 # _ \<Rightarrow> Inr (scan_periods month contribution_periods (contribution p0)))"

section \<open>Historical sequences (financial\_simulation\_lib.py)\<close>

text \<open>
  A per-asset table \<^verbatim>\<open>{year: percent}\<close> is the list of the dictionary's items; the
  three tables of \<^verbatim>\<open>market_returns\<close> are the fields of a record.
\<close>

type_synonym year_table = "(int \<times> real) list"

record market_returns =
  mr_SP500 :: year_table
  mr_NASDAQ100 :: year_table
  mr_TBILL_3M :: year_table

text \<open>
  One entry of the returned list. A series the window does not cover is \<^verbatim>\<open>None\<close>.
\<close>

record sequence =
  start_year :: int
  end_year :: int
  seq_SP500 :: "real list option"
  seq_NASDAQ100 :: "real list option"
  seq_TBILL_3M :: "real list option"

text \<open>\<^verbatim>\<open>sorted(d.keys())\<close>\<close>

definition sorted_keys :: "year_table \<Rightarrow> int list" where
  "sorted_keys d = sort (map fst d)"

text \<open>\<^verbatim>\<open>d[year]\<close>, KeyError when the year is absent.\<close>

definition dict_get :: "year_table \<Rightarrow> int \<Rightarrow> py_error + real" where
  "dict_get d y = (case map_of d y of None \<Rightarrow> Inl KeyError | Some v \<Rightarrow> Inr v)"

text \<open>\<^verbatim>\<open>[d[year] for year in ys]\<close>\<close>

fun dict_get_all :: "year_table \<Rightarrow> int list \<Rightarrow> py_error + real list" where
  "dict_get_all d [] = Inr []"
| "dict_get_all d (y # ys) =
     (case dict_get d y of
        Inl e \<Rightarrow> Inl e
      | Inr v \<Rightarrow> (case dict_get_all d ys of Inl e \<Rightarrow> Inl e | Inr vs \<Rightarrow> Inr (v # vs)))"

text \<open>
  One asset of one window: \<^verbatim>\<open>has_x = all(year in x_years for year in range(start_year, end_year + 1))\<close>,
  then the list of the returns or \<^verbatim>\<open>None\<close>.
\<close>

definition window_series ::
  "year_table \<Rightarrow> int list \<Rightarrow> int \<Rightarrow> int \<Rightarrow> py_error + real list option" where
  "window_series d years s e =
     (if list_all (\<lambda>y. y \<in> set years) (py_range s (e + 1))
      then (case dict_get_all d (py_range s (e + 1)) of
              Inl err \<Rightarrow> Inl err
            | Inr vs \<Rightarrow> Inr (Some vs))
      else Inr None)"

text \<open>The body of the loop over \<^verbatim>\<open>start_year\<close>.\<close>

definition make_sequence ::
  "market_returns \<Rightarrow> int list \<Rightarrow> int list \<Rightarrow> int list \<Rightarrow> int \<Rightarrow> py_error + sequence" where
  "make_sequence mr sp500_years nasdaq_years tbill_years s =
     (let e = s + 14 in
      case window_series (mr_SP500 mr) sp500_years s e of
        Inl err \<Rightarrow> Inl err
      | Inr sp \<Rightarrow>
     (case window_series (mr_NASDAQ100 mr) nasdaq_years s e of
        Inl err \<Rightarrow> Inl err
      | Inr nq \<Rightarrow>
     (case window_series (mr_TBILL_3M mr) tbill_years s e of
        Inl err \<Rightarrow> Inl err
      | Inr tb \<Rightarrow>
          Inr \<lparr>start_year = s, end_year = e,
               seq_SP500 = sp, seq_NASDAQ100 = nq, seq_TBILL_3M = tb\<rparr>)))"

fun sequences_loop ::
  "market_returns \<Rightarrow> int list \<Rightarrow> int list \<Rightarrow> int list \<Rightarrow> int list \<Rightarrow> py_error + sequence list" where
  "sequences_loop mr sp nq tb [] = Inr []"
| "sequences_loop mr sp nq tb (s # ss) =
     (case make_sequence mr sp nq tb s of
        Inl err \<Rightarrow> Inl err
      | Inr q \<Rightarrow>
          (case sequences_loop mr sp nq tb ss of
             Inl err \<Rightarrow> Inl err
           | Inr qs \<Rightarrow> Inr (q # qs)))"

text \<open>
  \<^verbatim>\<open>get_15_year_sequences\<close>. \<^verbatim>\<open>sp500_years[0]\<close> and \<^verbatim>\<open>sp500_years[-1]\<close> raise
  IndexError on an empty table; the loop runs over
  \<^verbatim>\<open>range(earliest_year, latest_year - 14)\<close>.
\<close>

definition get_15_year_sequences :: "market_returns \<Rightarrow> py_error + sequence list" where
  "get_15_year_sequences mr =
     (let sp500_years = sorted_keys (mr_SP500 mr);
          nasdaq_years = sorted_keys (mr_NASDAQ100 mr);
          tbill_years = sorted_keys (mr_TBILL_3M mr)
      in if sp500_years = [] \<or> nasdaq_years = [] \<or> tbill_years = [] then Inl IndexError
         else
           let earliest_year = min (min (hd sp500_years) (hd nasdaq_years)) (hd tbill_years);
               latest_year = max (max (last sp500_years) (last nasdaq_years)) (last tbill_years)
           in sequences_loop mr sp500_years nasdaq_years tbill_years
                (py_range earliest_year (latest_year - 14)))"

text \<open>The filter of the caller (app.py): the sequences with all three series present.\<close>

definition is_complete :: "sequence \<Rightarrow> bool" where
  "is_complete q \<longleftrightarrow> seq_SP500 q \<noteq> None \<and> seq_NASDAQ100 q \<noteq> None \<and> seq_TBILL_3M q \<noteq> None"

text \<open>A table with the same value for each year of a span, for concrete runs.\<close>

definition flat_table :: "int \<Rightarrow> int \<Rightarrow> real \<Rightarrow> year_table" where
  "flat_table a b v = map (\<lambda>y. (y, v)) [a..b]"


text \<open>The module's table \<^verbatim>\<open>market_returns\<close> (percent per year).\<close>

definition SP500_table :: year_table where
  "SP500_table =
     [(1926, 11.62), (1927, 37.49), (1928, 43.61), (1929, - 8.42), (1930, - 24.90),
      (1931, - 43.34), (1932, - 8.19), (1933, 53.99), (1934, - 1.44), (1935, 47.67),
      (1936, 33.92), (1937, - 35.03), (1938, 31.12), (1939, - 0.41), (1940, - 9.78),
      (1941, - 11.59), (1942, 20.34), (1943, 25.90), (1944, 19.75), (1945, 36.44),
      (1946, - 8.07), (1947, 5.71), (1948, 5.50), (1949, 18.79), (1950, 31.71),
      (1951, 24.02), (1952, 18.37), (1953, - 0.99), (1954, 52.62), (1955, 31.56),
      (1956, 6.56), (1957, - 10.78), (1958, 43.36), (1959, 11.96), (1960, 0.47),
      (1961, 26.89), (1962, - 8.73), (1963, 22.80), (1964, 16.48), (1965, 12.45),
      (1966, - 10.06), (1967, 23.98), (1968, 11.06), (1969, - 8.50), (1970, 4.01),
      (1971, 14.31), (1972, 18.98), (1973, - 14.66), (1974, - 26.47), (1975, 37.20),
      (1976, 23.84), (1977, - 7.18), (1978, 6.56), (1979, 18.44), (1980, 32.42),
      (1981, - 4.91), (1982, 21.55), (1983, 22.56), (1984, 6.27), (1985, 31.73),
      (1986, 18.67), (1987, 5.25), (1988, 16.61), (1989, 31.69), (1990, - 3.10),
      (1991, 30.47), (1992, 7.62), (1993, 10.08), (1994, 1.32), (1995, 37.58),
      (1996, 22.96), (1997, 33.36), (1998, 28.58), (1999, 21.04), (2000, - 9.10),
      (2001, - 11.89), (2002, - 22.10), (2003, 28.68), (2004, 10.88), (2005, 4.91),
      (2006, 15.79), (2007, 5.49), (2008, - 37.00), (2009, 26.46), (2010, 15.06),
      (2011, 2.11), (2012, 16.00), (2013, 32.39), (2014, 13.69), (2015, 1.38),
      (2016, 11.96), (2017, 21.83), (2018, - 4.38), (2019, 31.49), (2020, 18.40),
      (2021, 28.71), (2022, - 18.11), (2023, 26.29), (2024, 25.02)]"

definition NASDAQ100_table :: year_table where
  "NASDAQ100_table =
     [(1986, 6.89), (1987, 10.50), (1988, 13.54), (1989, 26.17), (1990, - 10.41),
      (1991, 64.99), (1992, 8.87), (1993, 10.58), (1994, 1.50), (1995, 42.54),
      (1996, 42.54), (1997, 20.63), (1998, 85.31), (1999, 101.95), (2000, - 36.84),
      (2001, - 32.65), (2002, - 37.58), (2003, 49.12), (2004, 10.44), (2005, 1.49),
      (2006, 6.79), (2007, 18.67), (2008, - 41.89), (2009, 53.54), (2010, 19.22),
      (2011, 2.70), (2012, 16.82), (2013, 34.99), (2014, 17.94), (2015, 8.43),
      (2016, 5.89), (2017, 31.52), (2018, - 1.04), (2019, 37.96), (2020, 47.58),
      (2021, 26.63), (2022, - 32.97), (2023, 53.81), (2024, 24.88)]"

definition TBILL_3M_table :: year_table where
  "TBILL_3M_table =
     [(1928, 3.08), (1929, 3.16), (1930, 4.55), (1931, 2.31), (1932, 1.07), (1933, 0.96),
      (1934, 0.28), (1935, 0.17), (1936, 0.17), (1937, 0.28), (1938, 0.07), (1939, 0.05),
      (1940, 0.04), (1941, 0.13), (1942, 0.34), (1943, 0.38), (1944, 0.38), (1945, 0.38),
      (1946, 0.38), (1947, 0.60), (1948, 1.05), (1949, 1.12), (1950, 1.20), (1951, 1.52),
      (1952, 1.72), (1953, 1.89), (1954, 0.94), (1955, 1.72), (1956, 2.62), (1957, 3.22),
      (1958, 1.77), (1959, 3.39), (1960, 2.87), (1961, 2.35), (1962, 2.77), (1963, 3.16),
      (1964, 3.55), (1965, 3.95), (1966, 4.86), (1967, 4.29), (1968, 5.34), (1969, 6.67),
      (1970, 6.39), (1971, 4.33), (1972, 4.06), (1973, 7.04), (1974, 7.85), (1975, 5.79),
      (1976, 4.98), (1977, 5.26), (1978, 7.18), (1979, 10.05), (1980, 11.39),
      (1981, 14.04), (1982, 10.60), (1983, 8.62), (1984, 9.54), (1985, 7.47), (1986, 5.97),
      (1987, 5.78), (1988, 6.67), (1989, 8.11), (1990, 7.50), (1991, 5.38), (1992, 3.43),
      (1993, 3.00), (1994, 4.25), (1995, 5.49), (1996, 5.01), (1997, 5.06), (1998, 4.78),
      (1999, 4.64), (2000, 5.82), (2001, 3.40), (2002, 1.61), (2003, 1.01), (2004, 1.37),
      (2005, 3.15), (2006, 4.73), (2007, 4.36), (2008, 1.37), (2009, 0.15), (2010, 0.14),
      (2011, 0.05), (2012, 0.09), (2013, 0.06), (2014, 0.03), (2015, 0.05), (2016, 0.32),
      (2017, 0.93), (2018, 1.94), (2019, 2.06), (2020, 0.35), (2021, 0.05), (2022, 2.02),
      (2023, 5.07), (2024, 4.97)]"

definition market_returns_data :: market_returns where
  "market_returns_data =
     \<lparr>mr_SP500 = SP500_table, mr_NASDAQ100 = NASDAQ100_table, mr_TBILL_3M = TBILL_3M_table\<rparr>"

section \<open>Return sampler\<close>

text \<open>
  The global random generator is an explicit stream of standard normal variates;
  \<^verbatim>\<open>np.random.normal(loc, scale)\<close> takes the next variate \<open>z\<close> and returns
  \<open>loc + scale * z\<close>, as NumPy computes it.
\<close>

type_synonym rng = "nat \<Rightarrow> real"

definition rng_skip :: "nat \<Rightarrow> rng \<Rightarrow> rng" where
  "rng_skip n g = (\<lambda>i. g (i + n))"

definition normal :: "real \<Rightarrow> real \<Rightarrow> rng \<Rightarrow> real \<times> rng" where
  "normal loc scale g = (loc + scale * g 0, rng_skip 1 g)"

text \<open>The loop \<^verbatim>\<open>for i in range(0, 12)\<close> of \<^verbatim>\<open>calculate_monthly_return\<close>, \<open>n\<close> rounds of it.\<close>

fun draw_returns :: "real \<Rightarrow> real \<Rightarrow> nat \<Rightarrow> rng \<Rightarrow> real list \<times> rng" where
  "draw_returns avg std 0 g = ([], g)"
| "draw_returns avg std (Suc n) g =
     (case normal 0 std g of
        (noise, g') \<Rightarrow>
          (case draw_returns avg std n g' of
             (rest, g'') \<Rightarrow> ((avg + noise) # rest, g'')))"

text \<open>
  \<^verbatim>\<open>avg_monthly_return = (1 + yearly_return)**(1/12) - 1\<close>. The real power \<open>powr\<close> is
  Python's \<^verbatim>\<open>**\<close> for a base that is not negative (a yearly return of at least -100\%).
\<close>

definition avg_monthly_return :: "real \<Rightarrow> real" where
  "avg_monthly_return yearly_return = (1 + yearly_return) powr (1 / 12) - 1"

definition calculate_monthly_return :: "real \<Rightarrow> real \<Rightarrow> rng \<Rightarrow> real list \<times> rng" where
  "calculate_monthly_return yearly_return std g =
     draw_returns (avg_monthly_return yearly_return) std 12 g"

section \<open>Simulation engine\<close>

text \<open>The four fractions of \<^verbatim>\<open>investment_mix\<close>, \<^verbatim>\<open>target_mix\<close> and \<^verbatim>\<open>current_mix\<close>.\<close>

record mix =
  mix_SP500 :: real
  mix_NASDAQ :: real
  mix_TBill :: real
  mix_HYSA :: real

definition mix_sum :: "mix \<Rightarrow> real" where
  "mix_sum m = mix_SP500 m + mix_NASDAQ m + mix_TBill m + mix_HYSA m"

text \<open>\<^verbatim>\<open>investment_breakdown\<close>: the trajectory of one run, one list per key.\<close>

record breakdown =
  Month_Index :: "int list"
  SP500 :: "real list"
  NASDAQ100 :: "real list"
  TBILL_3M :: "real list"
  HYSA :: "real list"
  Emergency_fund :: "real list"
  Baseline :: "real list"

text \<open>
  The arguments of \<^verbatim>\<open>run_investment_simulation\<close> other than the sequences. The
  contribution function is the caller's closure, a function of the month.
\<close>

record sim_params =
  investment_mix :: mix
  investment_start :: real
  emergency_fund_start :: real
  total_iterations :: int
  hysa_apy :: real
  SP500_std :: real
  NASDAQ_std :: real
  T_Bills_std :: real
  contribution_function :: "int \<Rightarrow> real"
  enable_rebalancing :: bool
  rebalancing_threshold :: real
  simulation_name :: string

text \<open>
  The loop \<^verbatim>\<open>for asset in [...]: diff = abs(current_allocation[asset] - target_mix[asset]);
  if diff > rebalancing_threshold: needs_rebalancing = True; break\<close>.
\<close>

definition needs_rebalancing :: "real \<Rightarrow> mix \<Rightarrow> mix \<Rightarrow> bool" where
  "needs_rebalancing threshold target_mix current_allocation \<longleftrightarrow>
     \<bar>mix_SP500 current_allocation - mix_SP500 target_mix\<bar> > threshold
   \<or> \<bar>mix_NASDAQ current_allocation - mix_NASDAQ target_mix\<bar> > threshold
   \<or> \<bar>mix_TBill current_allocation - mix_TBill target_mix\<bar> > threshold
   \<or> \<bar>mix_HYSA current_allocation - mix_HYSA target_mix\<bar> > threshold"

text \<open>\<^verbatim>\<open>adjustments[asset] = -(current_allocation[asset] - target_mix[asset])\<close>\<close>

definition adjustments :: "mix \<Rightarrow> mix \<Rightarrow> mix" where
  "adjustments target_mix current_allocation =
     \<lparr>mix_SP500 = - (mix_SP500 current_allocation - mix_SP500 target_mix),
      mix_NASDAQ = - (mix_NASDAQ current_allocation - mix_NASDAQ target_mix),
      mix_TBill = - (mix_TBill current_allocation - mix_TBill target_mix),
      mix_HYSA = - (mix_HYSA current_allocation - mix_HYSA target_mix)\<rparr>"

text \<open>\<^verbatim>\<open>total_adjustment = sum(max(0, adj) for adj in adjustments.values())\<close>\<close>

definition total_adjustment :: "mix \<Rightarrow> real" where
  "total_adjustment adj =
     max 0 (mix_SP500 adj) + max 0 (mix_NASDAQ adj) + max 0 (mix_TBill adj) + max 0 (mix_HYSA adj)"

text \<open>
  The branch under \<^verbatim>\<open>if needs_rebalancing:\<close>. Both arms of the source's inner
  \<^verbatim>\<open>if adjustments[asset] > 0\<close> are the same expression. The last step divides by
  \<^verbatim>\<open>total_mix\<close> when it is positive.
\<close>

definition adjusted_mix :: "mix \<Rightarrow> mix \<Rightarrow> mix \<Rightarrow> mix" where
  "adjusted_mix target_mix current_allocation current_mix =
     (let adj = adjustments target_mix current_allocation;
          total = total_adjustment adj
      in if total > 0
         then
           let new_mix =
                 \<lparr>mix_SP500 = mix_SP500 target_mix + (mix_SP500 adj / total) * 0.5,
                  mix_NASDAQ = mix_NASDAQ target_mix + (mix_NASDAQ adj / total) * 0.5,
                  mix_TBill = mix_TBill target_mix + (mix_TBill adj / total) * 0.5,
                  mix_HYSA = mix_HYSA target_mix + (mix_HYSA adj / total) * 0.5\<rparr>;
               total_mix = mix_sum new_mix
           in if total_mix > 0
              then \<lparr>mix_SP500 = mix_SP500 new_mix / total_mix,
                    mix_NASDAQ = mix_NASDAQ new_mix / total_mix,
                    mix_TBill = mix_TBill new_mix / total_mix,
                    mix_HYSA = mix_HYSA new_mix / total_mix\<rparr>
              else new_mix
         else current_mix)"

text \<open>
  \<^verbatim>\<open>total_value\<close> and \<^verbatim>\<open>current_allocation\<close>, from the four latest balances
  \<^verbatim>\<open>investment_breakdown[...][-1]\<close> (the emergency fund is not part of them).
\<close>

definition total_value :: "real \<times> real \<times> real \<times> real \<Rightarrow> real" where
  "total_value balances =
     (case balances of (sp500, nasdaq, tbill, hysa) \<Rightarrow> sp500 + nasdaq + tbill + hysa)"

definition current_allocation :: "real \<times> real \<times> real \<times> real \<Rightarrow> mix" where
  "current_allocation balances =
     (case balances of (sp500, nasdaq, tbill, hysa) \<Rightarrow>
        \<lparr>mix_SP500 = sp500 / total_value balances, mix_NASDAQ = nasdaq / total_value balances,
         mix_TBill = tbill / total_value balances, mix_HYSA = hysa / total_value balances\<rparr>)"

text \<open>
  The quarterly check at the head of the month loop's body: the value of
  \<^verbatim>\<open>current_mix\<close> after it.
\<close>

definition rebalance ::
  "sim_params \<Rightarrow> int \<Rightarrow> real \<times> real \<times> real \<times> real \<Rightarrow> mix \<Rightarrow> mix" where
  "rebalance P current_month balances current_mix =
     (if enable_rebalancing P \<and> current_month > 0 \<and> current_month mod 3 = 0
      then
        if total_value balances > 0
        then
          if needs_rebalancing (rebalancing_threshold P) (investment_mix P)
               (current_allocation balances)
          then adjusted_mix (investment_mix P) (current_allocation balances) current_mix
          else current_mix
        else current_mix
      else current_mix)"

text \<open>
  The body of \<^verbatim>\<open>for month_idx in range(12)\<close>. The state is the trajectory so far and
  \<^verbatim>\<open>current_mix\<close>; \<open>rets\<close> holds the three sampled returns of this month and \<open>H\<close> is
  \<^verbatim>\<open>HYSA_monthly_returns\<close>. Every list of the trajectory is non-empty whenever the
  body runs (each has \<open>k + 1\<close> entries after \<open>k\<close> months, the invariant \<open>shape\<close>
  below), so \<open>last\<close> is \<^verbatim>\<open>[-1]\<close>.
\<close>

definition month_step ::
  "sim_params \<Rightarrow> real \<Rightarrow> real \<times> real \<times> real \<Rightarrow> breakdown \<times> mix \<Rightarrow> breakdown \<times> mix" where
  "month_step P H rets st =
     (case st of (bd, current_mix0) \<Rightarrow>
      case rets of (sp500_return, nasdaq_return, tbill_return) \<Rightarrow>
        let current_month = last (Month_Index bd);
            current_mix = rebalance P current_month
              (last (SP500 bd), last (NASDAQ100 bd), last (TBILL_3M bd), last (HYSA bd))
              current_mix0;
            contribution = contribution_function P current_month;
            sp500_contribution = contribution * mix_SP500 current_mix;
            nasdaq_contribution = contribution * mix_NASDAQ current_mix;
            tbill_contribution = contribution * mix_TBill current_mix;
            hysa_contribution = contribution * mix_HYSA current_mix;
            new_sp500 = (last (SP500 bd) + sp500_contribution) * (1 + sp500_return);
            new_nasdaq = (last (NASDAQ100 bd) + nasdaq_contribution) * (1 + nasdaq_return);
            new_tbill = (last (TBILL_3M bd) + tbill_contribution) * (1 + tbill_return);
            new_hysa = (last (HYSA bd) + hysa_contribution) * (1 + H);
            new_baseline = (last (Baseline bd) + contribution) * (1 + H)
        in (\<lparr>Month_Index = Month_Index bd @ [current_month + 1],
             SP500 = SP500 bd @ [new_sp500],
             NASDAQ100 = NASDAQ100 bd @ [new_nasdaq],
             TBILL_3M = TBILL_3M bd @ [new_tbill],
             HYSA = HYSA bd @ [new_hysa],
             Emergency_fund = Emergency_fund bd @ [last (Emergency_fund bd) * (1 + H)],
             Baseline = Baseline bd @ [new_baseline]\<rparr>,
            current_mix))"

text \<open>
  \<^verbatim>\<open>for month_idx in range(12)\<close> over the year's three return vectors (each of length
  12, so the index is in range).
\<close>

fun months_loop ::
  "sim_params \<Rightarrow> real \<Rightarrow> real list \<Rightarrow> real list \<Rightarrow> real list \<Rightarrow> nat list \<Rightarrow>
   breakdown \<times> mix \<Rightarrow> breakdown \<times> mix" where
  "months_loop P H sp nq tb [] st = st"
| "months_loop P H sp nq tb (month_idx # rest) st =
     months_loop P H sp nq tb rest
       (month_step P H (sp ! month_idx, nq ! month_idx, tb ! month_idx) st)"

text \<open>
  \<^verbatim>\<open>seq['SP500'][year_idx]\<close>: TypeError on \<^verbatim>\<open>None\<close>, IndexError past the end of the list.
\<close>

definition subscript :: "real list option \<Rightarrow> nat \<Rightarrow> py_error + real" where
  "subscript series i =
     (case series of
        None \<Rightarrow> Inl TypeError
      | Some xs \<Rightarrow> if i < length xs then Inr (xs ! i) else Inl IndexError)"

text \<open>\<^verbatim>\<open>for year_idx in range(15)\<close>: three sampler calls, then the twelve months.\<close>

fun years_loop ::
  "sim_params \<Rightarrow> real \<Rightarrow> sequence \<Rightarrow> nat list \<Rightarrow> (breakdown \<times> mix) \<times> rng \<Rightarrow>
   py_error + (breakdown \<times> mix) \<times> rng" where
  "years_loop P H seq [] s = Inr s"
| "years_loop P H seq (year_idx # rest) (st, g) =
     (case subscript (seq_SP500 seq) year_idx of
        Inl e \<Rightarrow> Inl e
      | Inr sp500_annual \<Rightarrow>
     (case calculate_monthly_return (sp500_annual / 100) (SP500_std P) g of
        (sp500_monthly_returns, g1) \<Rightarrow>
     (case subscript (seq_NASDAQ100 seq) year_idx of
        Inl e \<Rightarrow> Inl e
      | Inr nasdaq_annual \<Rightarrow>
     (case calculate_monthly_return (nasdaq_annual / 100) (NASDAQ_std P) g1 of
        (nasdaq_monthly_returns, g2) \<Rightarrow>
     (case subscript (seq_TBILL_3M seq) year_idx of
        Inl e \<Rightarrow> Inl e
      | Inr tbill_annual \<Rightarrow>
     (case calculate_monthly_return (tbill_annual / 100) (T_Bills_std P) g2 of
        (tbill_monthly_returns, g3) \<Rightarrow>
          years_loop P H seq rest
            (months_loop P H sp500_monthly_returns nasdaq_monthly_returns
               tbill_monthly_returns [0..<12] st, g3)))))))"

text \<open>Month 0 of a run, and \<^verbatim>\<open>current_mix = target_mix.copy()\<close>.\<close>

definition initial_state :: "sim_params \<Rightarrow> breakdown \<times> mix" where
  "initial_state P =
     (\<lparr>Month_Index = [0],
       SP500 = [investment_start P * mix_SP500 (investment_mix P)],
       NASDAQ100 = [investment_start P * mix_NASDAQ (investment_mix P)],
       TBILL_3M = [investment_start P * mix_TBill (investment_mix P)],
       HYSA = [investment_start P * mix_HYSA (investment_mix P)],
       Emergency_fund = [emergency_fund_start P],
       Baseline = [investment_start P + emergency_fund_start P]\<rparr>,
      investment_mix P)"

text \<open>One (sequence, iteration) pair: the body of the loop over \<^verbatim>\<open>iteration\<close>.\<close>

definition run_pair ::
  "sim_params \<Rightarrow> real \<Rightarrow> sequence \<Rightarrow> rng \<Rightarrow> py_error + (breakdown \<times> mix) \<times> rng" where
  "run_pair P H seq g = years_loop P H seq [0..<15] (initial_state P, g)"

text \<open>\<^verbatim>\<open>simulation_results\<close>: one entry per run in each of the five lists.\<close>

record simulation_results =
  iteration :: "int list"
  sequence_index :: "nat list"
  sequence_start_year :: "int list"
  sequence_end_year :: "int list"
  result_dict :: "breakdown list"
  results_name :: string
  results_mix :: mix

text \<open>\<^verbatim>\<open>for iteration in range(0, total_iterations)\<close>\<close>

fun iterations_loop ::
  "sim_params \<Rightarrow> real \<Rightarrow> nat \<Rightarrow> sequence \<Rightarrow> int list \<Rightarrow> simulation_results \<times> rng \<Rightarrow>
   py_error + simulation_results \<times> rng" where
  "iterations_loop P H seq_idx seq [] s = Inr s"
| "iterations_loop P H seq_idx seq (it # rest) (res, g) =
     (case run_pair P H seq g of
        Inl e \<Rightarrow> Inl e
      | Inr ((bd, current_mix), g') \<Rightarrow>
          iterations_loop P H seq_idx seq rest
            (res\<lparr>iteration := iteration res @ [it],
                 sequence_index := sequence_index res @ [seq_idx],
                 sequence_start_year := sequence_start_year res @ [start_year seq],
                 sequence_end_year := sequence_end_year res @ [end_year seq],
                 result_dict := result_dict res @ [bd]\<rparr>, g'))"

text \<open>\<^verbatim>\<open>for seq_idx, seq in enumerate(complete_sequences)\<close>\<close>

fun sequences_run ::
  "sim_params \<Rightarrow> real \<Rightarrow> (nat \<times> sequence) list \<Rightarrow> simulation_results \<times> rng \<Rightarrow>
   py_error + simulation_results \<times> rng" where
  "sequences_run P H [] s = Inr s"
| "sequences_run P H ((seq_idx, seq) # rest) s =
     (case iterations_loop P H seq_idx seq (py_range 0 (total_iterations P)) s of
        Inl e \<Rightarrow> Inl e
      | Inr s' \<Rightarrow> sequences_run P H rest s')"

text \<open>
  \<^verbatim>\<open>run_investment_simulation\<close>.
  \<^verbatim>\<open>HYSA_monthly_returns = calculate_monthly_return(hysa_apy, 0)[0]\<close> comes first and
  takes twelve variates of the generator.
\<close>

definition run_investment_simulation ::
  "sim_params \<Rightarrow> sequence list \<Rightarrow> rng \<Rightarrow> py_error + simulation_results \<times> rng" where
  "run_investment_simulation P complete_sequences g =
     (case calculate_monthly_return (hysa_apy P) 0 g of
        (hysa_returns, g0) \<Rightarrow>
          sequences_run P (hd hysa_returns)
            (zip [0..<length complete_sequences] complete_sequences)
            (\<lparr>iteration = [], sequence_index = [], sequence_start_year = [],
              sequence_end_year = [], result_dict = [],
              results_name = simulation_name P, results_mix = investment_mix P\<rparr>, g0))"

section \<open>IRR solver and statistics\<close>

text \<open>A NumPy floating-point result: a number or \<^verbatim>\<open>nan\<close>.\<close>

datatype npfloat = Num real | NaN

text \<open>\<^verbatim>\<open>xs[i]\<close> for a Python integer: a negative index counts from the end.\<close>

definition py_index :: "'a list \<Rightarrow> int \<Rightarrow> py_error + 'a" where
  "py_index xs i =
     (if 0 \<le> i \<and> i < int (length xs) then Inr (xs ! nat i)
      else if i < 0 \<and> - int (length xs) \<le> i then Inr (xs ! nat (int (length xs) + i))
      else Inl IndexError)"

text \<open>
  \<^verbatim>\<open>result_dict['SP500'][i] + result_dict['NASDAQ100'][i] + result_dict['TBILL_3M'][i]
  + result_dict['HYSA'][i] + result_dict['Emergency_fund'][i]\<close>
\<close>

definition portfolio_total :: "breakdown \<Rightarrow> int \<Rightarrow> py_error + real" where
  "portfolio_total rd i =
     (case py_index (SP500 rd) i of Inl e \<Rightarrow> Inl e | Inr a \<Rightarrow>
     (case py_index (NASDAQ100 rd) i of Inl e \<Rightarrow> Inl e | Inr b \<Rightarrow>
     (case py_index (TBILL_3M rd) i of Inl e \<Rightarrow> Inl e | Inr c \<Rightarrow>
     (case py_index (HYSA rd) i of Inl e \<Rightarrow> Inl e | Inr d \<Rightarrow>
     (case py_index (Emergency_fund rd) i of Inl e \<Rightarrow> Inl e | Inr f \<Rightarrow>
        Inr (a + b + c + d + f))))))"

text \<open>
  \<^verbatim>\<open>npv\<close> and \<^verbatim>\<open>npv_derivative\<close> of \<^verbatim>\<open>calculate_irr\<close>, with \<open>powr\<close> for \<^verbatim>\<open>**\<close>
  (Python's power where \<open>1 + rate\<close> is positive).
\<close>

definition npv :: "real list \<Rightarrow> real list \<Rightarrow> real \<Rightarrow> real" where
  "npv cash_flows time_offsets rate =
     sum_list (map (\<lambda>(cf, t). cf / (1 + rate) powr t) (zip cash_flows time_offsets))"

definition npv_derivative :: "real list \<Rightarrow> real list \<Rightarrow> real \<Rightarrow> real" where
  "npv_derivative cash_flows time_offsets rate =
     sum_list (map (\<lambda>(cf, t). - t * cf / (1 + rate) powr (t + 1)) (zip cash_flows time_offsets))"

text \<open>
  \<^verbatim>\<open>scipy.optimize.newton(func, x0, fprime=..., maxiter=...)\<close> is library code: a
  parameter, which returns a value or raises.
\<close>

type_synonym newton_solver =
  "(real \<Rightarrow> real) \<Rightarrow> real \<Rightarrow> (real \<Rightarrow> real) \<Rightarrow> nat \<Rightarrow> py_error + npfloat"

text \<open>\<^verbatim>\<open>calculate_irr\<close>: the bare \<^verbatim>\<open>except:\<close> turns every exception into \<^verbatim>\<open>np.nan\<close>.\<close>

definition calculate_irr :: "newton_solver \<Rightarrow> real list \<Rightarrow> real list \<Rightarrow> npfloat" where
  "calculate_irr newton cash_flows time_offsets =
     (case newton (npv cash_flows time_offsets) 0.05 (npv_derivative cash_flows time_offsets) 100 of
        Inl e \<Rightarrow> NaN
      | Inr irr \<Rightarrow> irr)"

text \<open>
  The portfolio's cash flows and their times (\<^verbatim>\<open>times\<close> in the source) for one run in \<^verbatim>\<open>calculate_all_irrs\<close>:
  the initial total, one entry per month from the contribution function, the final total.
\<close>

definition portfolio_cash_flows ::
  "(int \<Rightarrow> real) \<Rightarrow> breakdown \<Rightarrow> py_error + real list \<times> real list" where
  "portfolio_cash_flows contribution_fn rd =
     (case portfolio_total rd 0 of
        Inl e \<Rightarrow> Inl e
      | Inr initial \<Rightarrow>
          let total_months = int (length (Month_Index rd)) - 1;
              months = py_range 1 (total_months + 1)
          in (case portfolio_total rd (- 1) of
                Inl e \<Rightarrow> Inl e
              | Inr final \<Rightarrow>
                  Inr ([- initial]
                         @ map (\<lambda>month_idx. - contribution_fn (month_idx - 1)) months
                         @ [final],
                       [0] @ map (\<lambda>month_idx. real_of_int month_idx / 12) months @ [15])))"

text \<open>
  The loop that builds the baseline's cash flows:
  \<^verbatim>\<open>baseline_contribution = (curr_baseline / (1 + HYSA_monthly_returns)) - prev_baseline\<close>,
  appended negated. The balances and the rate are Python floats, so the division raises
  ZeroDivisionError when \<open>1 + H\<close> is 0 (a yield of -100\%); nothing catches it.
\<close>

fun baseline_loop :: "real \<Rightarrow> real list \<Rightarrow> int list \<Rightarrow> py_error + real list" where
  "baseline_loop H baseline [] = Inr []"
| "baseline_loop H baseline (month_idx # rest) =
     (case py_index baseline (month_idx - 1) of
        Inl e \<Rightarrow> Inl e
      | Inr prev_baseline \<Rightarrow>
     (case py_index baseline month_idx of
        Inl e \<Rightarrow> Inl e
      | Inr curr_baseline \<Rightarrow>
          if 1 + H = 0 then Inl ZeroDivisionError
          else
            (case baseline_loop H baseline rest of
               Inl e \<Rightarrow> Inl e
             | Inr flows \<Rightarrow> Inr (- ((curr_baseline / (1 + H)) - prev_baseline) # flows))))"

definition baseline_cash_flows :: "real \<Rightarrow> breakdown \<Rightarrow> py_error + real list \<times> real list" where
  "baseline_cash_flows H rd =
     (case py_index (Baseline rd) 0 of
        Inl e \<Rightarrow> Inl e
      | Inr baseline_initial \<Rightarrow>
          let total_months = int (length (Month_Index rd)) - 1;
              months = py_range 1 (total_months + 1)
          in (case baseline_loop H (Baseline rd) months of
                Inl e \<Rightarrow> Inl e
              | Inr flows \<Rightarrow>
             (case py_index (Baseline rd) (- 1) of
                Inl e \<Rightarrow> Inl e
              | Inr baseline_final \<Rightarrow>
                  Inr ([- baseline_initial] @ flows @ [baseline_final],
                       [0] @ map (\<lambda>month_idx. real_of_int month_idx / 12) months @ [15]))))"

text \<open>\<^verbatim>\<open>if not np.isnan(irr): irr_returns.append(irr * 100)\<close>\<close>

definition append_irr :: "real list \<Rightarrow> npfloat \<Rightarrow> real list" where
  "append_irr irrs irr = (case irr of NaN \<Rightarrow> irrs | Num x \<Rightarrow> irrs @ [x * 100])"

record irr_results =
  irr_returns :: "real list"
  baseline_irr_returns :: "real list"

text \<open>The loop of \<^verbatim>\<open>calculate_all_irrs\<close> over the runs.\<close>

fun irrs_loop ::
  "newton_solver \<Rightarrow> (int \<Rightarrow> real) \<Rightarrow> real \<Rightarrow> breakdown list \<Rightarrow> real list \<times> real list \<Rightarrow>
   py_error + real list \<times> real list" where
  "irrs_loop newton cf H [] acc = Inr acc"
| "irrs_loop newton cf H (rd # rest) (irrs, baseline_irrs) =
     (case portfolio_cash_flows cf rd of
        Inl e \<Rightarrow> Inl e
      | Inr (cash_flows, time_offsets) \<Rightarrow>
     (case baseline_cash_flows H rd of
        Inl e \<Rightarrow> Inl e
      | Inr (baseline_flows, baseline_times) \<Rightarrow>
          irrs_loop newton cf H rest
            (append_irr irrs (calculate_irr newton cash_flows time_offsets),
             append_irr baseline_irrs
               (calculate_irr newton baseline_flows baseline_times))))"

definition calculate_all_irrs ::
  "newton_solver \<Rightarrow> simulation_results \<Rightarrow> (int \<Rightarrow> real) \<Rightarrow> real \<Rightarrow> py_error + irr_results" where
  "calculate_all_irrs newton results contribution_fn HYSA_monthly_returns =
     (case irrs_loop newton contribution_fn HYSA_monthly_returns (result_dict results) ([], []) of
        Inl e \<Rightarrow> Inl e
      | Inr (irrs, baseline_irrs) \<Rightarrow>
          Inr \<lparr>irr_returns = irrs, baseline_irr_returns = baseline_irrs\<rparr>)"

text \<open>
  \<^verbatim>\<open>np.percentile\<close> and \<^verbatim>\<open>np.mean\<close> are library code: parameters, which return a
  value or raise.
\<close>

record numpy =
  np_percentile :: "real list \<Rightarrow> real \<Rightarrow> py_error + npfloat"
  np_mean :: "real list \<Rightarrow> py_error + npfloat"

text \<open>The loop of \<^verbatim>\<open>calculate_milestone_statistics\<close> over the runs.\<close>

fun milestone_loop ::
  "int \<Rightarrow> breakdown list \<Rightarrow> real list \<times> real list \<Rightarrow> py_error + real list \<times> real list" where
  "milestone_loop month_index [] acc = Inr acc"
| "milestone_loop month_index (rd # rest) (milestone_values, milestone_baselines) =
     (if int (length (Month_Index rd)) > month_index
      then (case portfolio_total rd month_index of
              Inl e \<Rightarrow> Inl e
            | Inr milestone_total \<Rightarrow>
           (case py_index (Baseline rd) month_index of
              Inl e \<Rightarrow> Inl e
            | Inr b \<Rightarrow>
                milestone_loop month_index rest
                  (milestone_values @ [milestone_total], milestone_baselines @ [b])))
      else milestone_loop month_index rest (milestone_values, milestone_baselines))"

record milestone_stats =
  p25 :: npfloat
  p50 :: npfloat
  p75 :: npfloat
  avg_baseline :: npfloat
  beat_baseline_pct :: npfloat
  median_gain :: npfloat

text \<open>
  \<^verbatim>\<open>np.sum(milestone_values > milestone_baselines) / len(milestone_values) * 100\<close>: a
  NumPy integer divided by the length; with length 0 the count is 0 and NumPy gives
  \<^verbatim>\<open>nan\<close> (a warning, no exception).
\<close>

definition beat_pct :: "real list \<Rightarrow> real list \<Rightarrow> npfloat" where
  "beat_pct milestone_values milestone_baselines =
     (if length milestone_values = 0 then NaN
      else Num (real (length (filter (\<lambda>(v, b). v > b) (zip milestone_values milestone_baselines)))
                  / real (length milestone_values) * 100))"

text \<open>NumPy subtraction: \<^verbatim>\<open>nan\<close> propagates.\<close>

definition np_minus :: "npfloat \<Rightarrow> npfloat \<Rightarrow> npfloat" where
  "np_minus a b = (case a of NaN \<Rightarrow> NaN | Num x \<Rightarrow> (case b of NaN \<Rightarrow> NaN | Num y \<Rightarrow> Num (x - y)))"

text \<open>The returned dictionary, its entries evaluated in order.\<close>

definition milestone_summary ::
  "numpy \<Rightarrow> real list \<Rightarrow> real list \<Rightarrow> py_error + milestone_stats" where
  "milestone_summary L milestone_values milestone_baselines =
     (case np_percentile L milestone_values 25 of Inl e \<Rightarrow> Inl e | Inr q25 \<Rightarrow>
     (case np_percentile L milestone_values 50 of Inl e \<Rightarrow> Inl e | Inr q50 \<Rightarrow>
     (case np_percentile L milestone_values 75 of Inl e \<Rightarrow> Inl e | Inr q75 \<Rightarrow>
     (case np_mean L milestone_baselines of Inl e \<Rightarrow> Inl e | Inr avg \<Rightarrow>
        Inr \<lparr>p25 = q25, p50 = q50, p75 = q75, avg_baseline = avg,
             beat_baseline_pct = beat_pct milestone_values milestone_baselines,
             median_gain = np_minus q50 avg\<rparr>))))"

definition calculate_milestone_statistics ::
  "numpy \<Rightarrow> simulation_results \<Rightarrow> int \<Rightarrow> py_error + milestone_stats" where
  "calculate_milestone_statistics L results year =
     (case milestone_loop (year * 12) (result_dict results) ([], []) of
        Inl e \<Rightarrow> Inl e
      | Inr (milestone_values, milestone_baselines) \<Rightarrow>
          milestone_summary L milestone_values milestone_baselines)"

text \<open>
  A model of the library on which to run the function: NumPy's default (linear
  interpolation) percentile, which raises IndexError on an empty array, and the mean, which
  gives \<^verbatim>\<open>nan\<close> on an empty array.
\<close>

definition linear_percentile :: "real list \<Rightarrow> real \<Rightarrow> real" where
  "linear_percentile xs q =
     (let s = sort xs;
          h = real (length xs - 1) * q / 100;
          lo = nat \<lfloor>h\<rfloor>;
          hi = min (lo + 1) (length xs - 1)
      in s ! lo + (h - real lo) * (s ! hi - s ! lo))"

definition numpy_raise_on_empty :: numpy where
  "numpy_raise_on_empty =
     \<lparr>np_percentile = (\<lambda>xs q. if xs = [] then Inl IndexError
                              else Inr (Num (linear_percentile xs q))),
      np_mean = (\<lambda>xs. if xs = [] then Inr NaN else Inr (Num (sum_list xs / real (length xs))))\<rparr>"

text \<open>A result set with no runs.\<close>

definition empty_results :: simulation_results where
  "empty_results =
     \<lparr>iteration = [], sequence_index = [], sequence_start_year = [], sequence_end_year = [],
      result_dict = [], results_name = ''empty'',
      results_mix = \<lparr>mix_SP500 = 0.25, mix_NASDAQ = 0.25, mix_TBill = 0.25, mix_HYSA = 0.25\<rparr>\<rparr>"

section \<open>Notions used to state the properties of the engine\<close>

text \<open>
  The definitions of this section are not functions of the program: they name what the
  properties below speak of (the balances at a month of a finished trajectory, the mix in
  force at a month, the returns drawn for a year).
\<close>

text \<open>The four investable balances of a trajectory at month \<open>m\<close>.\<close>

definition balances_at :: "breakdown \<Rightarrow> nat \<Rightarrow> real \<times> real \<times> real \<times> real" where
  "balances_at bd m = (SP500 bd ! m, NASDAQ100 bd ! m, TBILL_3M bd ! m, HYSA bd ! m)"

text \<open>
  The contribution-allocation mix in force for the contributions of month \<open>m\<close>: the
  target mix, passed through the quarterly check of months 0 to \<open>m\<close> on the balances of
  the trajectory.
\<close>

fun active_mix :: "sim_params \<Rightarrow> breakdown \<Rightarrow> nat \<Rightarrow> mix" where
  "active_mix P bd 0 = rebalance P 0 (balances_at bd 0) (investment_mix P)"
| "active_mix P bd (Suc m) =
     rebalance P (int (Suc m)) (balances_at bd (Suc m)) (active_mix P bd m)"

text \<open>The annual return of year \<open>y\<close> of a series (0 where the program would fail).\<close>

definition annual_return :: "real list option \<Rightarrow> nat \<Rightarrow> real" where
  "annual_return series y = (case subscript series y of Inl e \<Rightarrow> 0 | Inr a \<Rightarrow> a)"

text \<open>
  The three vectors of monthly returns the sampler draws at the start of year \<open>y\<close> of a
  run that began with the generator in state \<open>g\<close>: each year takes 36 variates.
\<close>

definition year_returns ::
  "sim_params \<Rightarrow> sequence \<Rightarrow> rng \<Rightarrow> nat \<Rightarrow> real list \<times> real list \<times> real list" where
  "year_returns P seq g y =
     (case calculate_monthly_return (annual_return (seq_SP500 seq) y / 100) (SP500_std P)
             (rng_skip (36 * y) g) of
        (sp, g1) \<Rightarrow>
     (case calculate_monthly_return (annual_return (seq_NASDAQ100 seq) y / 100) (NASDAQ_std P) g1 of
        (nq, g2) \<Rightarrow>
     (case calculate_monthly_return (annual_return (seq_TBILL_3M seq) y / 100) (T_Bills_std P) g2 of
        (tb, g3) \<Rightarrow> (sp, nq, tb))))"

text \<open>A result without the final state of the generator.\<close>

definition outcome :: "py_error + 'a \<times> rng \<Rightarrow> py_error + 'a" where
  "outcome r = (case r of Inl e \<Rightarrow> Inl e | Inr (x, g) \<Rightarrow> Inr x)"

text \<open>All three series are present and have at least fifteen entries.\<close>

definition has_15_years :: "sequence \<Rightarrow> bool" where
  "has_15_years seq \<longleftrightarrow>
     (case seq_SP500 seq of None \<Rightarrow> False | Some xs \<Rightarrow> 15 \<le> length xs)
   \<and> (case seq_NASDAQ100 seq of None \<Rightarrow> False | Some xs \<Rightarrow> 15 \<le> length xs)
   \<and> (case seq_TBILL_3M seq of None \<Rightarrow> False | Some xs \<Rightarrow> 15 \<le> length xs)"

text \<open>The three returns sampled for month \<open>m\<close> of a run.\<close>

definition month_returns :: "sim_params \<Rightarrow> sequence \<Rightarrow> rng \<Rightarrow> nat \<Rightarrow> real \<times> real \<times> real" where
  "month_returns P seq g m =
     (case year_returns P seq g (m div 12) of
        (sp, nq, tb) \<Rightarrow> (sp ! (m mod 12), nq ! (m mod 12), tb ! (m mod 12)))"

text \<open>The value of \<^verbatim>\<open>current_mix\<close> when the body of month \<open>k\<close> starts.\<close>

fun mix_before :: "sim_params \<Rightarrow> breakdown \<Rightarrow> nat \<Rightarrow> mix" where
  "mix_before P bd 0 = investment_mix P"
| "mix_before P bd (Suc k) = active_mix P bd k"

text \<open>The transition from month \<open>m\<close> to month \<open>m + 1\<close> of a trajectory, with returns \<open>R m\<close>.\<close>

definition trans_ok :: "sim_params \<Rightarrow> real \<Rightarrow> (nat \<Rightarrow> real \<times> real \<times> real) \<Rightarrow> breakdown \<Rightarrow> nat \<Rightarrow> bool" where
  "trans_ok P H R bd m \<longleftrightarrow>
     SP500 bd ! Suc m =
       (SP500 bd ! m + contribution_function P (int m) * mix_SP500 (active_mix P bd m))
         * (1 + fst (R m))
   \<and> NASDAQ100 bd ! Suc m =
       (NASDAQ100 bd ! m + contribution_function P (int m) * mix_NASDAQ (active_mix P bd m))
         * (1 + fst (snd (R m)))
   \<and> TBILL_3M bd ! Suc m =
       (TBILL_3M bd ! m + contribution_function P (int m) * mix_TBill (active_mix P bd m))
         * (1 + snd (snd (R m)))
   \<and> HYSA bd ! Suc m =
       (HYSA bd ! m + contribution_function P (int m) * mix_HYSA (active_mix P bd m)) * (1 + H)
   \<and> Baseline bd ! Suc m = (Baseline bd ! m + contribution_function P (int m)) * (1 + H)
   \<and> Emergency_fund bd ! Suc m = Emergency_fund bd ! m * (1 + H)"

text \<open>The trajectory after \<open>k\<close> months: months 0 to \<open>k\<close> in every list.\<close>

definition shape :: "breakdown \<Rightarrow> nat \<Rightarrow> bool" where
  "shape bd k \<longleftrightarrow>
     Month_Index bd = map int [0..<Suc k]
   \<and> length (SP500 bd) = Suc k \<and> length (NASDAQ100 bd) = Suc k
   \<and> length (TBILL_3M bd) = Suc k \<and> length (HYSA bd) = Suc k
   \<and> length (Emergency_fund bd) = Suc k \<and> length (Baseline bd) = Suc k"

text \<open>The invariant of the month loop.\<close>

definition traj_inv ::
  "sim_params \<Rightarrow> real \<Rightarrow> (nat \<Rightarrow> real \<times> real \<times> real) \<Rightarrow> breakdown \<Rightarrow> nat \<Rightarrow> bool" where
  "traj_inv P H R bd k \<longleftrightarrow> shape bd k \<and> (\<forall>m<k. trans_ok P H R bd m)"

text \<open>A sequence and a configuration for concrete runs.\<close>

definition example_sequence :: sequence where
  "example_sequence =
     \<lparr>start_year = 2000, end_year = 2014, seq_SP500 = Some (replicate 15 10),
      seq_NASDAQ100 = Some (replicate 15 12), seq_TBILL_3M = Some (replicate 15 3)\<rparr>"

definition example_params :: sim_params where
  "example_params =
     \<lparr>investment_mix = \<lparr>mix_SP500 = 0.2, mix_NASDAQ = 0.3, mix_TBill = 0.3, mix_HYSA = 0.2\<rparr>,
      investment_start = 100, emergency_fund_start = 50, total_iterations = 2,
      hysa_apy = 0, SP500_std = 0, NASDAQ_std = 0, T_Bills_std = 0,
      contribution_function = (\<lambda>month. 100),
      enable_rebalancing = True, rebalancing_threshold = 0.05,
      simulation_name = ''example''\<rparr>"

text \<open>A state at month 3 in which the first asset has outgrown the others.\<close>

definition example_state :: breakdown where
  "example_state =
     \<lparr>Month_Index = [0, 1, 2, 3], SP500 = [20, 35, 50, 70], NASDAQ100 = [30, 30, 30, 30],
      TBILL_3M = [30, 30, 30, 30], HYSA = [20, 20, 20, 20],
      Emergency_fund = [50, 50, 50, 50], Baseline = [150, 250, 350, 450]\<rparr>"

text \<open>The IRR of one run, as \<^verbatim>\<open>calculate_all_irrs\<close> computes it from the run's cash flows.\<close>

definition portfolio_irr :: "newton_solver \<Rightarrow> (int \<Rightarrow> real) \<Rightarrow> breakdown \<Rightarrow> npfloat" where
  "portfolio_irr newton cf rd =
     (case portfolio_cash_flows cf rd of
        Inl e \<Rightarrow> NaN
      | Inr (cash_flows, time_offsets) \<Rightarrow> calculate_irr newton cash_flows time_offsets)"

definition baseline_irr :: "newton_solver \<Rightarrow> real \<Rightarrow> breakdown \<Rightarrow> npfloat" where
  "baseline_irr newton H rd =
     (case baseline_cash_flows H rd of
        Inl e \<Rightarrow> NaN
      | Inr (cash_flows, time_offsets) \<Rightarrow> calculate_irr newton cash_flows time_offsets)"

text \<open>
  A stand-in solver for concrete runs: it returns the rate 0 when 0 is a root and raises
  otherwise. Two short trajectories: on the first the rate 0 is a root of both net present
  values; on the second it is a root of the baseline's (at the monthly rate 0) and not of
  the portfolio's.
\<close>

definition root_at_zero_solver :: newton_solver where
  "root_at_zero_solver f x0 fprime maxiter = (if f 0 = 0 then Inr (Num 0) else Inl RuntimeError)"

definition flat_run :: breakdown where
  "flat_run =
     \<lparr>Month_Index = [0], SP500 = [25], NASDAQ100 = [25], TBILL_3M = [25], HYSA = [25],
      Emergency_fund = [50], Baseline = [150]\<rparr>"

definition growth_run :: breakdown where
  "growth_run =
     \<lparr>Month_Index = [0, 1], SP500 = [25, 30], NASDAQ100 = [25, 30], TBILL_3M = [25, 30],
      HYSA = [25, 30], Emergency_fund = [50, 50], Baseline = [150, 160]\<rparr>"

text \<open>A state at month 3 whose allocation is the target mix of the example.\<close>

definition balanced_state :: breakdown where
  "balanced_state =
     \<lparr>Month_Index = [0, 1, 2, 3], SP500 = [20, 20, 20, 20], NASDAQ100 = [30, 30, 30, 30],
      TBILL_3M = [30, 30, 30, 30], HYSA = [20, 20, 20, 20],
      Emergency_fund = [50, 50, 50, 50], Baseline = [150, 150, 150, 150]\<rparr>"

section \<open>Properties of the contribution lookup\<close>

lemma scan_periods_sorted:
  "sorted (map start_month ps) \<Longrightarrow>
   scan_periods m ps acc =
     (if filter (\<lambda>p. start_month p \<le> m) ps = [] then acc
      else contribution (last (filter (\<lambda>p. start_month p \<le> m) ps)))"
proof (induction ps arbitrary: acc)
  case Nil
  then show ?case by simp
next
  case (Cons p ps)
  show ?case
  proof (cases "start_month p \<le> m")
    case True
    with Cons show ?thesis by simp
  next
    case False
    with Cons.prems have "\<forall>q\<in>set ps. \<not> start_month q \<le> m" by auto
    then have "filter (\<lambda>p. start_month p \<le> m) ps = []" by (simp add: filter_empty_conv)
    with False show ?thesis by simp
  qed
qed

lemma last_filter_le_eq:
  "sorted (map start_month ps) \<Longrightarrow> p \<in> set ps \<Longrightarrow>
   last (filter (\<lambda>q. start_month q \<le> start_month p) ps) =
   last (filter (\<lambda>q. start_month q = start_month p) ps)"
proof (induction ps)
  case Nil
  then show ?case by simp
next
  case (Cons a ps)
  show ?case
  proof (cases "p \<in> set ps")
    case True
    with Cons have IH: "last (filter (\<lambda>q. start_month q \<le> start_month p) ps) =
       last (filter (\<lambda>q. start_month q = start_month p) ps)" by simp
    from True have ne: "filter (\<lambda>q. start_month q = start_month p) ps \<noteq> []"
      by (auto simp: filter_empty_conv)
    from True have ne': "filter (\<lambda>q. start_month q \<le> start_month p) ps \<noteq> []"
      by (auto simp: filter_empty_conv)
    from IH ne ne' show ?thesis by simp
  next
    case False
    with Cons.prems have pa: "p = a" by simp
    from Cons.prems have ge: "\<forall>q\<in>set ps. start_month a \<le> start_month q" by simp
    then have "filter (\<lambda>q. start_month q \<le> start_month a) ps =
          filter (\<lambda>q. start_month q = start_month a) ps"
      by (intro filter_cong) auto
    with pa show ?thesis by simp
  qed
qed

lemma filter_distinct_start:
  "distinct (map start_month ps) \<Longrightarrow> p \<in> set ps \<Longrightarrow>
   filter (\<lambda>q. start_month q = start_month p) ps = [p]"
proof (induction ps)
  case Nil
  then show ?case by simp
next
  case (Cons a ps)
  then show ?case by (auto simp: filter_empty_conv image_iff)
qed

lemma lookup_sorted:
  assumes "ps \<noteq> []" and "sorted (map start_month ps)"
  shows "get_contribution_for_month m ps =
     Inr (contribution
       (if filter (\<lambda>p. start_month p \<le> m) ps = [] then hd ps
        else last (filter (\<lambda>p. start_month p \<le> m) ps)))"
proof (cases ps)
  case Nil
  with assms show ?thesis by simp
next
  case (Cons a list)
  with assms have "scan_periods m ps (contribution a) =
     (if filter (\<lambda>p. start_month p \<le> m) ps = [] then contribution a
      else contribution (last (filter (\<lambda>p. start_month p \<le> m) ps)))"
    by (simp only: scan_periods_sorted)
  with Cons show ?thesis
    by (simp add: get_contribution_for_month_def)
qed

text \<open>
  C9, as stated, fails where two periods share a start month: the schedule below is sorted
  ascending by start month, and the lookup at month 7, the start month of its first
  period, returns the amount of the second period.
\<close>

theorem lookup_at_shared_start_month:
  "sorted (map start_month
       [\<lparr>contribution = 100, start_month = 7\<rparr>, \<lparr>contribution = 200, start_month = 7\<rparr>])
   \<and> \<lparr>contribution = 100, start_month = 7\<rparr> \<in>
       set [\<lparr>contribution = 100, start_month = 7\<rparr>, \<lparr>contribution = 200, start_month = 7\<rparr>]
   \<and> get_contribution_for_month (start_month \<lparr>contribution = 100, start_month = 7\<rparr>)
       [\<lparr>contribution = 100, start_month = 7\<rparr>, \<lparr>contribution = 200, start_month = 7\<rparr>]
     \<noteq> Inr (contribution \<lparr>contribution = 100, start_month = 7\<rparr>)"
  by (simp add: get_contribution_for_month_def)

text \<open>
  C9 (amended): for every non-empty schedule whose periods are sorted ascending by start
  month, the lookup for month \<open>m\<close> returns the amount of the last period whose start month
  is at most \<open>m\<close>, and the first period's amount when there is none; so a month strictly
  before the first period's start month returns the first period's amount. A lookup
  exactly at a period's start month returns the amount of the last period that has this
  start month, which is that period's own amount when the start months are distinct.
\<close>

theorem get_contribution_for_month_sorted:
  assumes "ps \<noteq> []" and "sorted (map start_month ps)"
  shows "get_contribution_for_month m ps =
           Inr (contribution
             (if filter (\<lambda>p. start_month p \<le> m) ps = [] then hd ps
              else last (filter (\<lambda>p. start_month p \<le> m) ps)))
       \<and> (m < start_month (hd ps) \<longrightarrow>
            get_contribution_for_month m ps = Inr (contribution (hd ps)))
       \<and> (\<forall>p\<in>set ps. get_contribution_for_month (start_month p) ps =
            Inr (contribution (last (filter (\<lambda>q. start_month q = start_month p) ps))))
       \<and> (distinct (map start_month ps) \<longrightarrow>
            (\<forall>p\<in>set ps. get_contribution_for_month (start_month p) ps = Inr (contribution p)))"
proof -
  have first: "m < start_month (hd ps) \<Longrightarrow> filter (\<lambda>p. start_month p \<le> m) ps = []" for m
  proof -
    assume lt: "m < start_month (hd ps)"
    from assms have "\<forall>q\<in>set ps. start_month (hd ps) \<le> start_month q"
      by (cases ps) auto
    with lt have "\<forall>q\<in>set ps. \<not> start_month q \<le> m" by fastforce
    then show ?thesis by (simp add: filter_empty_conv)
  qed
  have at: "get_contribution_for_month (start_month p) ps =
      Inr (contribution (last (filter (\<lambda>q. start_month q = start_month p) ps)))"
    if "p \<in> set ps" for p
  proof -
    from that have "filter (\<lambda>q. start_month q \<le> start_month p) ps \<noteq> []"
      by (auto simp: filter_empty_conv)
    with that assms show ?thesis
      by (simp add: lookup_sorted last_filter_le_eq)
  qed
  have one: "get_contribution_for_month m ps =
           Inr (contribution
             (if filter (\<lambda>p. start_month p \<le> m) ps = [] then hd ps
              else last (filter (\<lambda>p. start_month p \<le> m) ps)))"
    using assms by (rule lookup_sorted)
  have two: "m < start_month (hd ps) \<longrightarrow>
            get_contribution_for_month m ps = Inr (contribution (hd ps))"
    using one first by simp
  have four: "distinct (map start_month ps) \<longrightarrow>
            (\<forall>p\<in>set ps. get_contribution_for_month (start_month p) ps = Inr (contribution p))"
    using at by (simp add: filter_distinct_start)
  from one two at four show ?thesis by blast
qed

theorem get_contribution_for_month_sorted_witness:
  "[\<lparr>contribution = 3200, start_month = 2\<rparr>, \<lparr>contribution = 4000, start_month = 7\<rparr>,
    \<lparr>contribution = 1000, start_month = 20\<rparr>] \<noteq> []
   \<and> sorted (map start_month
       [\<lparr>contribution = 3200, start_month = 2\<rparr>, \<lparr>contribution = 4000, start_month = 7\<rparr>,
        \<lparr>contribution = 1000, start_month = 20\<rparr>])
   \<and> distinct (map start_month
       [\<lparr>contribution = 3200, start_month = 2\<rparr>, \<lparr>contribution = 4000, start_month = 7\<rparr>,
        \<lparr>contribution = 1000, start_month = 20\<rparr>])
   \<and> (1::int) < 2
   \<and> get_contribution_for_month 1
       [\<lparr>contribution = 3200, start_month = 2\<rparr>, \<lparr>contribution = 4000, start_month = 7\<rparr>,
        \<lparr>contribution = 1000, start_month = 20\<rparr>] = Inr 3200
   \<and> get_contribution_for_month 7
       [\<lparr>contribution = 3200, start_month = 2\<rparr>, \<lparr>contribution = 4000, start_month = 7\<rparr>,
        \<lparr>contribution = 1000, start_month = 20\<rparr>] = Inr 4000
   \<and> get_contribution_for_month 20
       [\<lparr>contribution = 3200, start_month = 2\<rparr>, \<lparr>contribution = 4000, start_month = 7\<rparr>,
        \<lparr>contribution = 1000, start_month = 20\<rparr>] = Inr 1000"
  using get_contribution_for_month_sorted
    [of "[\<lparr>contribution = 3200, start_month = 2\<rparr>, \<lparr>contribution = 4000, start_month = 7\<rparr>,
          \<lparr>contribution = 1000, start_month = 20\<rparr>]" 1]
  by simp

section \<open>Properties of the historical sequences\<close>

lemma make_sequence_years:
  "make_sequence mr sp nq tb s = Inr q \<Longrightarrow> start_year q = s \<and> end_year q = s + 14"
  by (auto simp: make_sequence_def Let_def split: sum.splits)

lemma sequences_loop_years:
  "sequences_loop mr sp nq tb ss = Inr qs \<Longrightarrow>
   map start_year qs = ss \<and> (\<forall>q\<in>set qs. end_year q = start_year q + 14)"
proof (induction ss arbitrary: qs)
  case Nil
  then show ?case by simp
next
  case (Cons s ss)
  then show ?case
    by (auto split: sum.splits dest: make_sequence_years)
qed

text \<open>
  What the function returns on every table: the start years are those of
  \<^verbatim>\<open>range(earliest_year, latest_year - 14)\<close>, so the last one is \<open>latest_year - 15\<close>.
\<close>

lemma get_15_year_sequences_years:
  assumes "get_15_year_sequences mr = Inr qs"
  shows "map start_year qs =
           [min (min (hd (sorted_keys (mr_SP500 mr))) (hd (sorted_keys (mr_NASDAQ100 mr))))
                (hd (sorted_keys (mr_TBILL_3M mr)))
            .. max (max (last (sorted_keys (mr_SP500 mr))) (last (sorted_keys (mr_NASDAQ100 mr))))
                (last (sorted_keys (mr_TBILL_3M mr))) - 15]
         \<and> (\<forall>q\<in>set qs. end_year q = start_year q + 14)"
proof -
  from assms have "sequences_loop mr (sorted_keys (mr_SP500 mr)) (sorted_keys (mr_NASDAQ100 mr))
       (sorted_keys (mr_TBILL_3M mr))
       (py_range
         (min (min (hd (sorted_keys (mr_SP500 mr))) (hd (sorted_keys (mr_NASDAQ100 mr))))
              (hd (sorted_keys (mr_TBILL_3M mr))))
         (max (max (last (sorted_keys (mr_SP500 mr))) (last (sorted_keys (mr_NASDAQ100 mr))))
              (last (sorted_keys (mr_TBILL_3M mr))) - 14)) = Inr qs"
    by (simp add: get_15_year_sequences_def Let_def split: if_splits)
  from sequences_loop_years [OF this] show ?thesis
    by (simp add: py_range_def)
qed

text \<open>
  The function returns a list for every table with three non-empty series. On the module's
  own table the start years it returns are 1926 to 2009, and the window 2010 to 2024, which
  it never builds, has all three series.
\<close>

lemma dict_get_all_ok:
  "set ys \<subseteq> fst ` set d \<Longrightarrow> \<exists>vs. dict_get_all d ys = Inr vs"
proof (induction ys)
  case Nil
  then show ?case by simp
next
  case (Cons y ys)
  then have "y \<in> fst ` set d" by simp
  then obtain v where "map_of d y = Some v"
    by (metis map_of_eq_None_iff not_Some_eq)
  with Cons show ?case by (auto simp: dict_get_def)
qed

lemma window_series_ok: "\<exists>r. window_series d (sorted_keys d) s e = Inr r"
proof (cases "list_all (\<lambda>y. y \<in> set (sorted_keys d)) (py_range s (e + 1))")
  case True
  then have "set (py_range s (e + 1)) \<subseteq> fst ` set d"
    by (auto simp: list_all_iff sorted_keys_def)
  from dict_get_all_ok [OF this] True show ?thesis
    by (auto simp: window_series_def)
next
  case False
  then show ?thesis by (simp add: window_series_def)
qed

lemma make_sequence_ok:
  "\<exists>q. make_sequence mr (sorted_keys (mr_SP500 mr)) (sorted_keys (mr_NASDAQ100 mr))
         (sorted_keys (mr_TBILL_3M mr)) s = Inr q"
  using window_series_ok [of "mr_SP500 mr" s "s + 14"]
    window_series_ok [of "mr_NASDAQ100 mr" s "s + 14"]
    window_series_ok [of "mr_TBILL_3M mr" s "s + 14"]
  by (auto simp: make_sequence_def Let_def)

lemma sequences_loop_ok:
  "\<exists>qs. sequences_loop mr (sorted_keys (mr_SP500 mr)) (sorted_keys (mr_NASDAQ100 mr))
         (sorted_keys (mr_TBILL_3M mr)) ss = Inr qs"
proof (induction ss)
  case Nil
  then show ?case by simp
next
  case (Cons s ss)
  with make_sequence_ok [of mr s] show ?case by auto
qed

lemma sorted_keys_empty: "sorted_keys d = [] \<longleftrightarrow> d = []"
proof -
  have "length (sorted_keys d) = length d" by (simp add: sorted_keys_def)
  then show ?thesis by (metis length_0_conv)
qed

lemma get_15_year_sequences_total:
  assumes "mr_SP500 mr \<noteq> []" "mr_NASDAQ100 mr \<noteq> []" "mr_TBILL_3M mr \<noteq> []"
  shows "\<exists>qs. get_15_year_sequences mr = Inr qs"
  using assms sequences_loop_ok [of mr]
  by (simp add: get_15_year_sequences_def Let_def sorted_keys_empty)

lemma market_returns_keys:
  "map fst SP500_table = [1926..2024]" "map fst NASDAQ100_table = [1986..2024]"
  "map fst TBILL_3M_table = [1928..2024]"
  by (simp_all add: SP500_table_def NASDAQ100_table_def TBILL_3M_table_def upto_rec1)

lemma sorted_keys_upto: "map fst d = [a..b] \<Longrightarrow> sorted_keys d = [a..b]"
  by (simp add: sorted_keys_def sorted_sort_id)

lemma market_returns_years:
  "hd (sorted_keys SP500_table) = 1926 \<and> last (sorted_keys SP500_table) = 2024
   \<and> hd (sorted_keys NASDAQ100_table) = 1986 \<and> last (sorted_keys NASDAQ100_table) = 2024
   \<and> hd (sorted_keys TBILL_3M_table) = 1928 \<and> last (sorted_keys TBILL_3M_table) = 2024"
proof -
  have h: "hd [a..b] = a \<and> last [a..b] = b" if "a \<le> b" for a b :: int
  proof
    from that show "hd [a..b] = a" by (simp add: upto_rec1 [of a b])
    from that have "[a..b] = [a..b - 1] @ [b]" by (rule upto_rec2)
    then show "last [a..b] = b" by (simp only: last_snoc)
  qed
  show ?thesis
    by (simp add: sorted_keys_upto [OF market_returns_keys(1)]
        sorted_keys_upto [OF market_returns_keys(2)]
        sorted_keys_upto [OF market_returns_keys(3)] h)
qed

lemma market_returns_start_years:
  "\<exists>qs. get_15_year_sequences market_returns_data = Inr qs \<and> map start_year qs = [1926..2009]"
proof -
  have "\<exists>qs. get_15_year_sequences market_returns_data = Inr qs"
    by (rule get_15_year_sequences_total)
       (simp_all add: market_returns_data_def SP500_table_def NASDAQ100_table_def
          TBILL_3M_table_def)
  then obtain qs where q: "get_15_year_sequences market_returns_data = Inr qs" ..
  from get_15_year_sequences_years [OF q] market_returns_years
  have "map start_year qs = [1926..2009]"
    by (simp add: market_returns_data_def)
  with q show ?thesis by blast
qed


lemma window_series_present:
  assumes "set (py_range s (e + 1)) \<subseteq> set (map fst d)"
  shows "\<exists>vs. window_series d (sorted_keys d) s e = Inr (Some vs)"
proof -
  from assms have sub: "set (py_range s (e + 1)) \<subseteq> fst ` set d" by simp
  then have "list_all (\<lambda>y. y \<in> set (sorted_keys d)) (py_range s (e + 1))"
    by (auto simp: list_all_iff sorted_keys_def)
  with dict_get_all_ok [OF sub] show ?thesis
    by (auto simp: window_series_def)
qed

lemma market_returns_window_2010:
  "\<exists>q. make_sequence market_returns_data (sorted_keys SP500_table)
         (sorted_keys NASDAQ100_table) (sorted_keys TBILL_3M_table) 2010 = Inr q
       \<and> is_complete q \<and> start_year q = 2010 \<and> end_year q = 2024"
proof -
  have "\<exists>vs. window_series SP500_table (sorted_keys SP500_table) 2010 (2010 + 14) = Inr (Some vs)"
    by (rule window_series_present) (simp add: market_returns_keys py_range_def)
  moreover
  have "\<exists>vs. window_series NASDAQ100_table (sorted_keys NASDAQ100_table) 2010 (2010 + 14) =
      Inr (Some vs)"
    by (rule window_series_present) (simp add: market_returns_keys py_range_def)
  moreover
  have "\<exists>vs. window_series TBILL_3M_table (sorted_keys TBILL_3M_table) 2010 (2010 + 14) =
      Inr (Some vs)"
    by (rule window_series_present) (simp add: market_returns_keys py_range_def)
  ultimately show ?thesis
    by (auto simp: make_sequence_def Let_def market_returns_data_def is_complete_def)
qed

text \<open>
  C1 fails on the code: the loop stops one start year early. On three tables that each
  cover exactly the years 2000 to 2014, the earliest year is 2000 and the latest is 2014,
  so the claim asks for the one sequence starting in 2000 = 2014 - 14; the function
  returns the empty list, although the loop body builds a complete sequence for 2000.
\<close>

theorem get_15_year_sequences_misses_last_window:
  "get_15_year_sequences
     \<lparr>mr_SP500 = flat_table 2000 2014 10, mr_NASDAQ100 = flat_table 2000 2014 12,
      mr_TBILL_3M = flat_table 2000 2014 3\<rparr> = Inr []
   \<and> make_sequence
       \<lparr>mr_SP500 = flat_table 2000 2014 10, mr_NASDAQ100 = flat_table 2000 2014 12,
        mr_TBILL_3M = flat_table 2000 2014 3\<rparr>
       (sorted_keys (flat_table 2000 2014 10)) (sorted_keys (flat_table 2000 2014 12))
       (sorted_keys (flat_table 2000 2014 3)) 2000
     = Inr \<lparr>start_year = 2000, end_year = 2014,
            seq_SP500 = Some (replicate 15 10), seq_NASDAQ100 = Some (replicate 15 12),
            seq_TBILL_3M = Some (replicate 15 3)\<rparr>"
  by (simp add: get_15_year_sequences_def make_sequence_def window_series_def dict_get_def
      sorted_keys_def flat_table_def upto_rec1 py_range_def Let_def eval_nat_numeral)

section \<open>Properties of the simulation engine\<close>

lemma draw_returns_eq:
  "draw_returns avg std n g = (map (\<lambda>i. avg + (0 + std * g i)) [0..<n], rng_skip n g)"
proof (induction n arbitrary: g)
  case 0
  then show ?case by (simp add: rng_skip_def)
next
  case (Suc n)
  have "map (\<lambda>i. avg + (0 + std * g i)) [0..<Suc n] =
        (avg + (0 + std * g 0)) # map (\<lambda>i. avg + (0 + std * g (Suc i))) [0..<n]"
    by (simp only: map_upt_Suc)
  then show ?case
    by (simp add: Suc normal_def rng_skip_def del: upt_Suc)
qed

lemma calculate_monthly_return_eq:
  "calculate_monthly_return y std g =
     (map (\<lambda>i. avg_monthly_return y + (0 + std * g i)) [0..<12], rng_skip 12 g)"
  by (simp only: calculate_monthly_return_def draw_returns_eq)

lemma rng_skip_skip: "rng_skip a (rng_skip b g) = rng_skip (a + b) g"
  by (simp add: rng_skip_def add.assoc)


lemma active_mix_cong:
  assumes "\<And>j. j \<le> m \<Longrightarrow> balances_at bd' j = balances_at bd j"
  shows "active_mix P bd' m = active_mix P bd m"
  using assms
proof (induction m)
  case 0
  have "balances_at bd' 0 = balances_at bd 0" using 0 by blast
  then show ?case by simp
next
  case (Suc m)
  have a: "balances_at bd' (Suc m) = balances_at bd (Suc m)" using Suc.prems by blast
  have b: "active_mix P bd' m = active_mix P bd m"
  proof (rule Suc.IH)
    fix j assume "j \<le> m"
    then have "j \<le> Suc m" by simp
    then show "balances_at bd' j = balances_at bd j" by (rule Suc.prems)
  qed
  show ?case by (simp only: active_mix.simps a b)
qed

lemma mix_before_cong:
  assumes "\<And>j. j < k \<Longrightarrow> balances_at bd' j = balances_at bd j"
  shows "mix_before P bd' k = mix_before P bd k"
proof (cases k)
  case 0
  then show ?thesis by simp
next
  case (Suc n)
  have "active_mix P bd' n = active_mix P bd n"
  proof (rule active_mix_cong)
    fix j assume "j \<le> n"
    with Suc have "j < k" by simp
    then show "balances_at bd' j = balances_at bd j" by (rule assms)
  qed
  with Suc show ?thesis by simp
qed

lemma active_mix_step:
  "active_mix P bd k = rebalance P (int k) (balances_at bd k) (mix_before P bd k)"
  by (cases k) simp_all

lemma last_nth_Suc: "length xs = Suc k \<Longrightarrow> last xs = xs ! k"
  by (cases xs rule: rev_cases) (simp_all add: nth_append)

lemma shape_last:
  assumes "shape bd k"
  shows "last (Month_Index bd) = int k \<and> last (SP500 bd) = SP500 bd ! k
    \<and> last (NASDAQ100 bd) = NASDAQ100 bd ! k \<and> last (TBILL_3M bd) = TBILL_3M bd ! k
    \<and> last (HYSA bd) = HYSA bd ! k \<and> last (Emergency_fund bd) = Emergency_fund bd ! k
    \<and> last (Baseline bd) = Baseline bd ! k"
proof -
  from assms have "Month_Index bd = map int [0..<k] @ [int k]" by (simp add: shape_def)
  then have "last (Month_Index bd) = int k" by (simp only: last_snoc)
  with assms show ?thesis
    by (simp add: shape_def last_nth_Suc)
qed


lemma month_step_unfold:
  assumes "shape bd k"
  shows "month_step P H rets (bd, cm) =
     (\<lparr>Month_Index = Month_Index bd @ [int k + 1],
       SP500 = SP500 bd @ [(SP500 bd ! k + contribution_function P (int k) *
          mix_SP500 (rebalance P (int k) (balances_at bd k) cm)) * (1 + fst rets)],
       NASDAQ100 = NASDAQ100 bd @ [(NASDAQ100 bd ! k + contribution_function P (int k) *
          mix_NASDAQ (rebalance P (int k) (balances_at bd k) cm)) * (1 + fst (snd rets))],
       TBILL_3M = TBILL_3M bd @ [(TBILL_3M bd ! k + contribution_function P (int k) *
          mix_TBill (rebalance P (int k) (balances_at bd k) cm)) * (1 + snd (snd rets))],
       HYSA = HYSA bd @ [(HYSA bd ! k + contribution_function P (int k) *
          mix_HYSA (rebalance P (int k) (balances_at bd k) cm)) * (1 + H)],
       Emergency_fund = Emergency_fund bd @ [Emergency_fund bd ! k * (1 + H)],
       Baseline = Baseline bd @ [(Baseline bd ! k + contribution_function P (int k)) * (1 + H)]\<rparr>,
      rebalance P (int k) (balances_at bd k) cm)"
  using shape_last [OF assms]
  by (cases rets) (simp add: month_step_def Let_def balances_at_def)

lemma month_step_inv:
  assumes inv: "traj_inv P H R bd k" and cm: "cm = mix_before P bd k"
  shows "\<exists>bd'. month_step P H (R k) (bd, cm) = (bd', mix_before P bd' (Suc k))
           \<and> traj_inv P H R bd' (Suc k)"
proof -
  from inv have sh: "shape bd k" and tr: "\<And>m. m < k \<Longrightarrow> trans_ok P H R bd m"
    by (simp_all add: traj_inv_def)
  define cm' where "cm' = rebalance P (int k) (balances_at bd k) cm"
  define bd' where "bd' = fst (month_step P H (R k) (bd, cm))"
  have step: "month_step P H (R k) (bd, cm) = (bd', cm')"
    by (simp add: bd'_def cm'_def month_step_unfold [OF sh])
  have len: "length (SP500 bd) = Suc k" "length (NASDAQ100 bd) = Suc k"
    "length (TBILL_3M bd) = Suc k" "length (HYSA bd) = Suc k"
    "length (Emergency_fund bd) = Suc k" "length (Baseline bd) = Suc k"
    using sh by (simp_all add: shape_def)
  have f: "SP500 bd' = SP500 bd @ [(SP500 bd ! k + contribution_function P (int k) *
          mix_SP500 cm') * (1 + fst (R k))]"
    "NASDAQ100 bd' = NASDAQ100 bd @ [(NASDAQ100 bd ! k + contribution_function P (int k) *
          mix_NASDAQ cm') * (1 + fst (snd (R k)))]"
    "TBILL_3M bd' = TBILL_3M bd @ [(TBILL_3M bd ! k + contribution_function P (int k) *
          mix_TBill cm') * (1 + snd (snd (R k)))]"
    "HYSA bd' = HYSA bd @ [(HYSA bd ! k + contribution_function P (int k) *
          mix_HYSA cm') * (1 + H)]"
    "Emergency_fund bd' = Emergency_fund bd @ [Emergency_fund bd ! k * (1 + H)]"
    "Baseline bd' = Baseline bd @ [(Baseline bd ! k + contribution_function P (int k)) * (1 + H)]"
    "Month_Index bd' = Month_Index bd @ [int k + 1]"
    by (simp_all add: bd'_def cm'_def month_step_unfold [OF sh])
  have old: "SP500 bd' ! j = SP500 bd ! j" "NASDAQ100 bd' ! j = NASDAQ100 bd ! j"
    "TBILL_3M bd' ! j = TBILL_3M bd ! j" "HYSA bd' ! j = HYSA bd ! j"
    "Emergency_fund bd' ! j = Emergency_fund bd ! j" "Baseline bd' ! j = Baseline bd ! j"
    if "j \<le> k" for j
    using that len by (simp_all add: f nth_append)
  have new: "SP500 bd' ! Suc k = (SP500 bd ! k + contribution_function P (int k) *
          mix_SP500 cm') * (1 + fst (R k))"
    "NASDAQ100 bd' ! Suc k = (NASDAQ100 bd ! k + contribution_function P (int k) *
          mix_NASDAQ cm') * (1 + fst (snd (R k)))"
    "TBILL_3M bd' ! Suc k = (TBILL_3M bd ! k + contribution_function P (int k) *
          mix_TBill cm') * (1 + snd (snd (R k)))"
    "HYSA bd' ! Suc k = (HYSA bd ! k + contribution_function P (int k) *
          mix_HYSA cm') * (1 + H)"
    "Emergency_fund bd' ! Suc k = Emergency_fund bd ! k * (1 + H)"
    "Baseline bd' ! Suc k = (Baseline bd ! k + contribution_function P (int k)) * (1 + H)"
    using len by (simp_all add: f nth_append)
  have bal: "balances_at bd' j = balances_at bd j" if "j \<le> k" for j
    using old [OF that] by (simp add: balances_at_def)
  have am: "active_mix P bd' m = active_mix P bd m" if "m \<le> k" for m
  proof (rule active_mix_cong)
    fix j assume "j \<le> m"
    with that have "j \<le> k" by simp
    then show "balances_at bd' j = balances_at bd j" by (rule bal)
  qed
  have mb: "mix_before P bd' k = mix_before P bd k"
  proof (rule mix_before_cong)
    fix j assume "j < k"
    then have "j \<le> k" by simp
    then show "balances_at bd' j = balances_at bd j" by (rule bal)
  qed
  have cm'_eq: "cm' = active_mix P bd' k"
    by (simp add: active_mix_step [of P bd' k] mb bal cm cm'_def)
  have sh': "shape bd' (Suc k)"
    using sh by (simp add: shape_def f)
  have tr_old: "trans_ok P H R bd' m" if "m < k" for m
  proof -
    from that have a: "m \<le> k" and b: "Suc m \<le> k" by simp_all
    from tr [OF that] show ?thesis
      by (simp add: trans_ok_def old [OF a] old [OF b] am [OF a])
  qed
  have tr_new: "trans_ok P H R bd' k"
    by (simp add: trans_ok_def new old [of k] cm'_eq [symmetric])
  have "trans_ok P H R bd' m" if "m < Suc k" for m
    using that tr_old tr_new by (cases "m = k") simp_all
  with sh' have "traj_inv P H R bd' (Suc k)" by (simp add: traj_inv_def)
  moreover have "month_step P H (R k) (bd, cm) = (bd', mix_before P bd' (Suc k))"
    using step cm'_eq by simp
  ultimately show ?thesis by blast
qed


lemma months_loop_inv:
  assumes R: "\<And>i. i < 12 \<Longrightarrow> R (12 * y + i) = (sp ! i, nq ! i, tb ! i)"
  shows "i0 \<le> 12 \<Longrightarrow> traj_inv P H R bd (12 * y + i0) \<Longrightarrow>
    \<exists>bd'. months_loop P H sp nq tb [i0..<12] (bd, mix_before P bd (12 * y + i0)) =
            (bd', mix_before P bd' (12 * y + 12))
        \<and> traj_inv P H R bd' (12 * y + 12)"
proof (induction "12 - i0" arbitrary: i0 bd)
  case 0
  then have "i0 = 12" by simp
  with 0 show ?case by simp
next
  case (Suc d)
  then have lt: "i0 < 12" by simp
  from month_step_inv [OF Suc.prems(2) refl]
  obtain bd1 where s1: "month_step P H (R (12 * y + i0)) (bd, mix_before P bd (12 * y + i0)) =
        (bd1, mix_before P bd1 (Suc (12 * y + i0)))"
    and i1: "traj_inv P H R bd1 (Suc (12 * y + i0))" by blast
  from Suc.hyps(2) have d: "d = 12 - Suc i0" by simp
  from lt have le: "Suc i0 \<le> 12" by simp
  from i1 have i1': "traj_inv P H R bd1 (12 * y + Suc i0)" by simp
  from Suc.hyps(1) [OF d le i1']
  obtain bd' where "months_loop P H sp nq tb [Suc i0..<12] (bd1, mix_before P bd1 (12 * y + Suc i0)) =
            (bd', mix_before P bd' (12 * y + 12))"
    and "traj_inv P H R bd' (12 * y + 12)" by blast
  moreover have "[i0..<12] = i0 # [Suc i0..<12]" using lt by (simp only: upt_conv_Cons)
  ultimately show ?case
    using s1 R [OF lt] by (simp del: upt_Suc)
qed

lemma has_15_years_subscript:
  assumes "has_15_years seq" and "y < 15"
  shows "subscript (seq_SP500 seq) y = Inr (annual_return (seq_SP500 seq) y)
       \<and> subscript (seq_NASDAQ100 seq) y = Inr (annual_return (seq_NASDAQ100 seq) y)
       \<and> subscript (seq_TBILL_3M seq) y = Inr (annual_return (seq_TBILL_3M seq) y)"
  using assms
  by (auto simp: has_15_years_def subscript_def annual_return_def split: option.splits)

lemma month_returns_year:
  assumes "year_returns P seq g y = (sp, nq, tb)" and "i < 12"
  shows "month_returns P seq g (12 * y + i) = (sp ! i, nq ! i, tb ! i)"
  using assms by (simp add: month_returns_def)

lemma years_loop_inv:
  assumes ok: "has_15_years seq"
  shows "y0 \<le> 15 \<Longrightarrow> traj_inv P H (month_returns P seq g) bd (12 * y0) \<Longrightarrow>
    \<exists>bd'. years_loop P H seq [y0..<15]
             ((bd, mix_before P bd (12 * y0)), rng_skip (36 * y0) g) =
            Inr ((bd', mix_before P bd' 180), rng_skip 540 g)
        \<and> traj_inv P H (month_returns P seq g) bd' 180"
proof (induction "15 - y0" arbitrary: y0 bd)
  case 0
  then have "y0 = 15" by simp
  with 0 show ?case by simp
next
  case (Suc d)
  then have lt: "y0 < 15" by simp
  obtain sp nq tb where yr: "year_returns P seq g y0 = (sp, nq, tb)"
    by (cases "year_returns P seq g y0") auto
  note sub = has_15_years_subscript [OF ok lt]
  from Suc.prems(2) have inv0: "traj_inv P H (month_returns P seq g) bd (12 * y0 + 0)" by simp
  from months_loop_inv [of "month_returns P seq g" y0 sp nq tb 0 P H bd,
      OF month_returns_year [OF yr] _ inv0]
  obtain bd1 where m1: "months_loop P H sp nq tb [0..<12] (bd, mix_before P bd (12 * y0)) =
            (bd1, mix_before P bd1 (12 * y0 + 12))"
    and i1: "traj_inv P H (month_returns P seq g) bd1 (12 * y0 + 12)" by auto
  from Suc.hyps(2) have d: "d = 15 - Suc y0" by simp
  from lt have le: "Suc y0 \<le> 15" by simp
  from i1 have i1': "traj_inv P H (month_returns P seq g) bd1 (12 * Suc y0)"
    by (simp add: add.commute)
  from Suc.hyps(1) [OF d le i1']
  obtain bd' where r: "years_loop P H seq [Suc y0..<15]
             ((bd1, mix_before P bd1 (12 * Suc y0)), rng_skip (36 * Suc y0) g) =
            Inr ((bd', mix_before P bd' 180), rng_skip 540 g)"
    and i': "traj_inv P H (month_returns P seq g) bd' 180" by blast
  have up: "[y0..<15] = y0 # [Suc y0..<15]" using lt by (simp only: upt_conv_Cons)
  have g3: "rng_skip 12 (rng_skip 12 (rng_skip 12 (rng_skip (36 * y0) g))) =
      rng_skip (36 * Suc y0) g"
    by (simp add: rng_skip_skip)
  have eqs: "12 * y0 + 12 = 12 * Suc y0" by simp
  from yr have c:
    "calculate_monthly_return (annual_return (seq_SP500 seq) y0 / 100) (SP500_std P)
       (rng_skip (36 * y0) g) = (sp, rng_skip 12 (rng_skip (36 * y0) g))"
    "calculate_monthly_return (annual_return (seq_NASDAQ100 seq) y0 / 100) (NASDAQ_std P)
       (rng_skip 12 (rng_skip (36 * y0) g)) = (nq, rng_skip 12 (rng_skip 12 (rng_skip (36 * y0) g)))"
    "calculate_monthly_return (annual_return (seq_TBILL_3M seq) y0 / 100) (T_Bills_std P)
       (rng_skip 12 (rng_skip 12 (rng_skip (36 * y0) g))) =
         (tb, rng_skip 12 (rng_skip 12 (rng_skip 12 (rng_skip (36 * y0) g))))"
    by (simp_all add: year_returns_def calculate_monthly_return_eq)
  have "years_loop P H seq [y0..<15]
             ((bd, mix_before P bd (12 * y0)), rng_skip (36 * y0) g) =
        years_loop P H seq [Suc y0..<15]
             ((bd1, mix_before P bd1 (12 * Suc y0)), rng_skip (36 * Suc y0) g)"
    unfolding up
    by (simp only: years_loop.simps sub sum.case c prod.case m1 eqs g3)
  with r i' show ?case by simp
qed


lemma initial_state_inv: "traj_inv P H R (fst (initial_state P)) 0"
  by (simp add: traj_inv_def shape_def initial_state_def)

lemma run_pair_inv:
  assumes "has_15_years seq"
  shows "\<exists>bd. run_pair P H seq g = Inr ((bd, active_mix P bd 179), rng_skip 540 g)
           \<and> traj_inv P H (month_returns P seq g) bd 180"
proof -
  have i0: "traj_inv P H (month_returns P seq g) (fst (initial_state P)) (12 * 0)"
    using initial_state_inv [of P H] by simp
  have s0: "((fst (initial_state P), mix_before P (fst (initial_state P)) (12 * 0)),
      rng_skip (36 * 0) g) = (initial_state P, g)"
    by (simp add: initial_state_def rng_skip_def)
  have m: "mix_before P bd 180 = active_mix P bd 179" for bd
    using mix_before.simps(2) [of P bd 179] by simp
  from years_loop_inv [OF assms _ i0] s0 show ?thesis
    by (simp add: run_pair_def m)
qed

text \<open>
  C3: in every run of a sequence with fifteen years of each series, for every month
  \<open>m\<close> in 0..179, each of the three volatile balances at month \<open>m + 1\<close> is
  (balance at \<open>m\<close> + contribution of month \<open>m\<close> times the active mix fraction) times
  (1 + the return sampled for that month); the cash-equivalent balance grows likewise at
  the monthly cash rate \<open>H\<close>; the baseline takes the whole contribution and grows at
  \<open>H\<close>; the emergency fund grows at \<open>H\<close> with no contribution.
\<close>

theorem run_pair_month_transition:
  assumes "has_15_years seq"
  shows "\<exists>bd cm g'. run_pair P H seq g = Inr ((bd, cm), g')
    \<and> length (SP500 bd) = 181
    \<and> (\<forall>m<180.
        SP500 bd ! Suc m =
          (SP500 bd ! m + contribution_function P (int m) * mix_SP500 (active_mix P bd m))
            * (1 + fst (year_returns P seq g (m div 12)) ! (m mod 12))
      \<and> NASDAQ100 bd ! Suc m =
          (NASDAQ100 bd ! m + contribution_function P (int m) * mix_NASDAQ (active_mix P bd m))
            * (1 + fst (snd (year_returns P seq g (m div 12))) ! (m mod 12))
      \<and> TBILL_3M bd ! Suc m =
          (TBILL_3M bd ! m + contribution_function P (int m) * mix_TBill (active_mix P bd m))
            * (1 + snd (snd (year_returns P seq g (m div 12))) ! (m mod 12))
      \<and> HYSA bd ! Suc m =
          (HYSA bd ! m + contribution_function P (int m) * mix_HYSA (active_mix P bd m))
            * (1 + H)
      \<and> Baseline bd ! Suc m = (Baseline bd ! m + contribution_function P (int m)) * (1 + H)
      \<and> Emergency_fund bd ! Suc m = Emergency_fund bd ! m * (1 + H))"
proof -
  from run_pair_inv [OF assms, of P H g]
  obtain bd where r: "run_pair P H seq g = Inr ((bd, active_mix P bd 179), rng_skip 540 g)"
    and inv: "traj_inv P H (month_returns P seq g) bd 180" by blast
  have R: "fst (month_returns P seq g m) = fst (year_returns P seq g (m div 12)) ! (m mod 12)"
    "fst (snd (month_returns P seq g m)) =
        fst (snd (year_returns P seq g (m div 12))) ! (m mod 12)"
    "snd (snd (month_returns P seq g m)) =
        snd (snd (year_returns P seq g (m div 12))) ! (m mod 12)" for m
    by (cases "year_returns P seq g (m div 12)"; simp add: month_returns_def)+
  from inv have "length (SP500 bd) = 181" by (simp add: traj_inv_def shape_def)
  moreover from inv have "\<forall>m<180. trans_ok P H (month_returns P seq g) bd m"
    by (simp add: traj_inv_def)
  ultimately show ?thesis
    using r unfolding trans_ok_def R by blast
qed


theorem run_pair_month_transition_witness:
  "has_15_years example_sequence
   \<and> (\<exists>bd cm g'. run_pair example_params 0 example_sequence (\<lambda>i. 0) = Inr ((bd, cm), g')
        \<and> SP500 bd ! Suc 3 =
          (SP500 bd ! 3 + contribution_function example_params (int 3)
              * mix_SP500 (active_mix example_params bd 3))
            * (1 + fst (year_returns example_params example_sequence (\<lambda>i. 0) (3 div 12)) ! (3 mod 12))
        \<and> Baseline bd ! Suc 3 =
            (Baseline bd ! 3 + contribution_function example_params (int 3)) * (1 + 0)
        \<and> Emergency_fund bd ! Suc 3 = Emergency_fund bd ! 3 * (1 + 0))"
proof -
  have h: "has_15_years example_sequence"
    by (simp add: has_15_years_def example_sequence_def)
  have lt: "(3::nat) < 180" by simp
  from run_pair_month_transition [OF h, of example_params 0 "\<lambda>i. 0"] lt h
  show ?thesis by blast
qed

lemma calculate_monthly_return_zero:
  "calculate_monthly_return y 0 g = (replicate 12 (avg_monthly_return y), rng_skip 12 g)"
proof -
  have "map (\<lambda>i. avg_monthly_return y + (0 + 0 * g i)) [0..<12] =
        replicate (length [0..<12::nat]) (avg_monthly_return y)"
    by (simp only: mult_zero_left add_0_right map_replicate_const)
  then show ?thesis
    by (simp only: calculate_monthly_return_eq length_upt) simp
qed

lemma years_loop_deterministic:
  assumes "SP500_std P = 0" "NASDAQ_std P = 0" "T_Bills_std P = 0"
  shows "outcome (years_loop P H seq ys (st, g1)) =
         outcome (years_loop P H seq ys (st, g2))"
proof (induction ys arbitrary: st g1 g2)
  case Nil
  then show ?case by (simp add: outcome_def)
next
  case (Cons y ys)
  show ?case
    by (auto simp: assms calculate_monthly_return_zero split: sum.splits intro: Cons.IH)
qed

lemma run_pair_deterministic:
  assumes "SP500_std P = 0" "NASDAQ_std P = 0" "T_Bills_std P = 0"
  shows "outcome (run_pair P H seq g1) = outcome (run_pair P H seq g2)"
  unfolding run_pair_def by (rule years_loop_deterministic [OF assms])

lemma iterations_loop_deterministic:
  assumes "SP500_std P = 0" "NASDAQ_std P = 0" "T_Bills_std P = 0"
  shows "outcome (iterations_loop P H i seq its (res, g1)) =
         outcome (iterations_loop P H i seq its (res, g2))"
proof (induction its arbitrary: res g1 g2)
  case Nil
  then show ?case by (simp add: outcome_def)
next
  case (Cons it its)
  from run_pair_deterministic [OF assms, of H seq g1 g2]
  consider (err) e where "run_pair P H seq g1 = Inl e" "run_pair P H seq g2 = Inl e"
    | (ok) bd cm a b where "run_pair P H seq g1 = Inr ((bd, cm), a)"
        "run_pair P H seq g2 = Inr ((bd, cm), b)"
    by (cases "run_pair P H seq g1"; cases "run_pair P H seq g2") (auto simp: outcome_def)
  then show ?case
  proof cases
    case err
    then show ?thesis by (simp add: outcome_def)
  next
    case ok
    then show ?thesis by (auto intro: Cons.IH)
  qed
qed

lemma sequences_run_deterministic:
  assumes "SP500_std P = 0" "NASDAQ_std P = 0" "T_Bills_std P = 0"
  shows "outcome (sequences_run P H xs (res, g1)) =
         outcome (sequences_run P H xs (res, g2))"
proof (induction xs arbitrary: res g1 g2)
  case Nil
  then show ?case by (simp add: outcome_def)
next
  case (Cons x xs)
  obtain i seq where x: "x = (i, seq)" by (cases x)
  from iterations_loop_deterministic [OF assms, of H i seq "py_range 0 (total_iterations P)" res g1 g2]
  consider (err) e where
      "iterations_loop P H i seq (py_range 0 (total_iterations P)) (res, g1) = Inl e"
      "iterations_loop P H i seq (py_range 0 (total_iterations P)) (res, g2) = Inl e"
    | (ok) r a b where
      "iterations_loop P H i seq (py_range 0 (total_iterations P)) (res, g1) = Inr (r, a)"
      "iterations_loop P H i seq (py_range 0 (total_iterations P)) (res, g2) = Inr (r, b)"
    by (cases "iterations_loop P H i seq (py_range 0 (total_iterations P)) (res, g1)";
        cases "iterations_loop P H i seq (py_range 0 (total_iterations P)) (res, g2)")
       (auto simp: outcome_def)
  then show ?case
  proof cases
    case err
    then show ?thesis by (simp add: x outcome_def)
  next
    case ok
    then show ?thesis by (auto simp: x intro: Cons.IH)
  qed
qed

lemma run_investment_simulation_rate:
  "run_investment_simulation P seqs g =
     sequences_run P (avg_monthly_return (hysa_apy P)) (zip [0..<length seqs] seqs)
       (\<lparr>iteration = [], sequence_index = [], sequence_start_year = [],
         sequence_end_year = [], result_dict = [],
         results_name = simulation_name P, results_mix = investment_mix P\<rparr>, rng_skip 12 g)"
  by (simp add: run_investment_simulation_def calculate_monthly_return_zero eval_nat_numeral)

text \<open>
  C6: with standard deviation 0 the sampler returns, whatever the state of the random
  generator, twelve values each equal to \<open>(1 + yearly_return) powr (1 / 12) - 1\<close>; and
  with the three volatility parameters at 0, two simulations with the same inputs produce
  the same result (the same trajectories, or the same failure) from any two states of the
  generator.
\<close>

theorem zero_volatility_deterministic:
  "fst (calculate_monthly_return y 0 g) = replicate 12 ((1 + y) powr (1 / 12) - 1)
   \<and> (SP500_std P = 0 \<and> NASDAQ_std P = 0 \<and> T_Bills_std P = 0 \<longrightarrow>
        outcome (run_investment_simulation P seqs g1) =
        outcome (run_investment_simulation P seqs g2))"
  by (simp add: calculate_monthly_return_zero avg_monthly_return_def
      run_investment_simulation_rate sequences_run_deterministic)

theorem zero_volatility_deterministic_witness:
  "SP500_std example_params = 0 \<and> NASDAQ_std example_params = 0
   \<and> T_Bills_std example_params = 0
   \<and> fst (calculate_monthly_return 0 0 (\<lambda>i. 1)) = replicate 12 0
   \<and> outcome (run_investment_simulation example_params [example_sequence] (\<lambda>i. 0)) =
     outcome (run_investment_simulation example_params [example_sequence] (\<lambda>i. 1))"
  using zero_volatility_deterministic [of 0 "\<lambda>i. 1" example_params "[example_sequence]"
      "\<lambda>i. 0" "\<lambda>i. 1"]
  by (simp add: example_params_def)

section \<open>Properties of the quarterly rebalancing\<close>

lemma current_allocation_sum:
  "total_value b \<noteq> 0 \<Longrightarrow> mix_sum (current_allocation b) = 1"
  by (cases b) (simp add: mix_sum_def current_allocation_def total_value_def
      add_divide_distrib [symmetric])

lemma adjustments_sum:
  "mix_sum (adjustments t a) = mix_sum t - mix_sum a"
  by (simp add: mix_sum_def adjustments_def)

lemma adjusted_mix_sum:
  assumes "mix_sum t = 1" and "mix_sum a = 1" and "total_adjustment (adjustments t a) > 0"
  shows "mix_sum (adjusted_mix t a cm) = 1"
    and "adjusted_mix t a cm =
      \<lparr>mix_SP500 = mix_SP500 t + (mix_SP500 (adjustments t a) / total_adjustment (adjustments t a)) * 0.5,
       mix_NASDAQ = mix_NASDAQ t + (mix_NASDAQ (adjustments t a) / total_adjustment (adjustments t a)) * 0.5,
       mix_TBill = mix_TBill t + (mix_TBill (adjustments t a) / total_adjustment (adjustments t a)) * 0.5,
       mix_HYSA = mix_HYSA t + (mix_HYSA (adjustments t a) / total_adjustment (adjustments t a)) * 0.5\<rparr>"
proof -
  define T where "T = total_adjustment (adjustments t a)"
  define n where "n =
      \<lparr>mix_SP500 = mix_SP500 t + (mix_SP500 (adjustments t a) / T) * 0.5,
       mix_NASDAQ = mix_NASDAQ t + (mix_NASDAQ (adjustments t a) / T) * 0.5,
       mix_TBill = mix_TBill t + (mix_TBill (adjustments t a) / T) * 0.5,
       mix_HYSA = mix_HYSA t + (mix_HYSA (adjustments t a) / T) * 0.5\<rparr>"
  have "mix_sum n = mix_sum t + (mix_sum (adjustments t a) / T) * 0.5"
    by (simp add: n_def mix_sum_def add_divide_distrib)
  with assms have one: "mix_sum n = 1" by (simp add: adjustments_sum)
  have "adjusted_mix t a cm =
      (if T > 0
       then if mix_sum n > 0
            then \<lparr>mix_SP500 = mix_SP500 n / mix_sum n, mix_NASDAQ = mix_NASDAQ n / mix_sum n,
                  mix_TBill = mix_TBill n / mix_sum n, mix_HYSA = mix_HYSA n / mix_sum n\<rparr>
            else n
       else cm)"
    unfolding adjusted_mix_def Let_def T_def n_def by (rule refl)
  also have "\<dots> = \<lparr>mix_SP500 = mix_SP500 n, mix_NASDAQ = mix_NASDAQ n,
                  mix_TBill = mix_TBill n, mix_HYSA = mix_HYSA n\<rparr>"
    using assms(3) one by (simp add: T_def)
  also have "\<dots> = n" by (cases n) simp
  finally have "adjusted_mix t a cm = n" .
  then show "mix_sum (adjusted_mix t a cm) = 1" using one by simp
  from \<open>adjusted_mix t a cm = n\<close> show "adjusted_mix t a cm =
      \<lparr>mix_SP500 = mix_SP500 t + (mix_SP500 (adjustments t a) / total_adjustment (adjustments t a)) * 0.5,
       mix_NASDAQ = mix_NASDAQ t + (mix_NASDAQ (adjustments t a) / total_adjustment (adjustments t a)) * 0.5,
       mix_TBill = mix_TBill t + (mix_TBill (adjustments t a) / total_adjustment (adjustments t a)) * 0.5,
       mix_HYSA = mix_HYSA t + (mix_HYSA (adjustments t a) / total_adjustment (adjustments t a)) * 0.5\<rparr>"
    by (simp add: n_def T_def)
qed

lemma total_adjustment_nonneg: "0 \<le> total_adjustment adj"
  by (simp add: total_adjustment_def)

lemma total_adjustment_pos:
  assumes "mix_sum t = mix_sum a" and "a \<noteq> t"
  shows "total_adjustment (adjustments t a) > 0"
proof -
  from assms(2) have "mix_SP500 a \<noteq> mix_SP500 t \<or> mix_NASDAQ a \<noteq> mix_NASDAQ t
      \<or> mix_TBill a \<noteq> mix_TBill t \<or> mix_HYSA a \<noteq> mix_HYSA t"
    by (cases a; cases t) auto
  with assms(1) have "mix_SP500 a < mix_SP500 t \<or> mix_NASDAQ a < mix_NASDAQ t
      \<or> mix_TBill a < mix_TBill t \<or> mix_HYSA a < mix_HYSA t"
    unfolding mix_sum_def by linarith
  then show ?thesis
    unfolding total_adjustment_def adjustments_def by (auto simp: max_def) 
qed

lemma rebalance_sum:
  assumes "mix_sum (investment_mix P) = 1" and "mix_sum cm = 1"
  shows "mix_sum (rebalance P month b cm) = 1"
proof (cases "total_value b > 0 \<and> total_adjustment (adjustments (investment_mix P) (current_allocation b)) > 0")
  case True
  then have "mix_sum (current_allocation b) = 1" by (simp add: current_allocation_sum)
  with True assms show ?thesis
    by (simp add: rebalance_def adjusted_mix_sum(1))
next
  case False
  with assms show ?thesis
    by (auto simp: rebalance_def adjusted_mix_def Let_def)
qed

lemma active_mix_sum:
  assumes "mix_sum (investment_mix P) = 1"
  shows "mix_sum (active_mix P bd m) = 1"
  by (induction m) (simp_all add: assms rebalance_sum)

lemma month_step_mix:
  "snd (month_step P H rets (bd, cm)) =
     rebalance P (last (Month_Index bd))
       (last (SP500 bd), last (NASDAQ100 bd), last (TBILL_3M bd), last (HYSA bd)) cm"
  by (cases rets) (simp add: month_step_def Let_def)


lemma needs_rebalancing_zero:
  "needs_rebalancing 0 t a \<longleftrightarrow> mix_SP500 a \<noteq> mix_SP500 t \<or> mix_NASDAQ a \<noteq> mix_NASDAQ t
      \<or> mix_TBill a \<noteq> mix_TBill t \<or> mix_HYSA a \<noteq> mix_HYSA t"
  by (auto simp: needs_rebalancing_def)

lemma mix_neq_iff:
  "(a::mix) \<noteq> t \<longleftrightarrow> mix_SP500 a \<noteq> mix_SP500 t \<or> mix_NASDAQ a \<noteq> mix_NASDAQ t
      \<or> mix_TBill a \<noteq> mix_TBill t \<or> mix_HYSA a \<noteq> mix_HYSA t"
  by (cases a; cases t) auto

lemma adjusted_mix_neq_target:
  assumes "mix_sum t = 1" and "mix_sum a = 1" and "a \<noteq> t"
  shows "adjusted_mix t a cm \<noteq> t"
proof -
  have pos: "total_adjustment (adjustments t a) > 0"
    using assms by (simp add: total_adjustment_pos)
  from assms(3) have "mix_SP500 (adjustments t a) \<noteq> 0 \<or> mix_NASDAQ (adjustments t a) \<noteq> 0
      \<or> mix_TBill (adjustments t a) \<noteq> 0 \<or> mix_HYSA (adjustments t a) \<noteq> 0"
    by (auto simp: mix_neq_iff adjustments_def)
  with pos show ?thesis
    unfolding adjusted_mix_sum(2) [OF assms(1,2) pos]
    by (auto simp: mix_neq_iff [of _ t])
qed

text \<open>
  C4: the mix a month's body leaves in \<^verbatim>\<open>current_mix\<close> is the one it found unless the
  month is a positive multiple of 3; it differs from the one it found only when
  rebalancing is enabled, the four balances have a positive total and some asset's
  |current fraction - target fraction| exceeds the threshold. At a quarterly checkpoint
  with rebalancing enabled, threshold 0, a positive total and a target mix summing to 1:
  an allocation that differs from the target triggers the adjustment (the mix is set to
  target + 0.5 times the normalised adjustment, which is not the target mix), and the
  mix is left as it was when the allocation equals the target.
\<close>

theorem rebalancing_trigger:
  "(let month = last (Month_Index bd);
        balances = (last (SP500 bd), last (NASDAQ100 bd), last (TBILL_3M bd), last (HYSA bd));
        alloc = current_allocation balances;
        target = investment_mix P;
        new_mix = snd (month_step P H rets (bd, cm))
    in (\<not> (month > 0 \<and> month mod 3 = 0) \<longrightarrow> new_mix = cm)
     \<and> (new_mix \<noteq> cm \<longrightarrow>
          enable_rebalancing P \<and> total_value balances > 0
          \<and> needs_rebalancing (rebalancing_threshold P) target alloc)
     \<and> (enable_rebalancing P \<and> month > 0 \<and> month mod 3 = 0 \<and> total_value balances > 0
          \<and> rebalancing_threshold P = 0 \<and> mix_sum target = 1 \<longrightarrow>
          (alloc \<noteq> target \<longrightarrow>
             total_adjustment (adjustments target alloc) > 0
           \<and> new_mix =
               \<lparr>mix_SP500 = mix_SP500 target
                  + (mix_SP500 (adjustments target alloc) / total_adjustment (adjustments target alloc)) * 0.5,
                mix_NASDAQ = mix_NASDAQ target
                  + (mix_NASDAQ (adjustments target alloc) / total_adjustment (adjustments target alloc)) * 0.5,
                mix_TBill = mix_TBill target
                  + (mix_TBill (adjustments target alloc) / total_adjustment (adjustments target alloc)) * 0.5,
                mix_HYSA = mix_HYSA target
                  + (mix_HYSA (adjustments target alloc) / total_adjustment (adjustments target alloc)) * 0.5\<rparr>
           \<and> new_mix \<noteq> target)
        \<and> (alloc = target \<longrightarrow> new_mix = cm)))"
proof -
  define month where "month = last (Month_Index bd)"
  define balances where
    "balances = (last (SP500 bd), last (NASDAQ100 bd), last (TBILL_3M bd), last (HYSA bd))"
  define alloc where "alloc = current_allocation balances"
  define target where "target = investment_mix P"
  define new_mix where "new_mix = snd (month_step P H rets (bd, cm))"
  have nm: "new_mix = rebalance P month balances cm"
    by (simp add: new_mix_def month_step_mix month_def balances_def)
  have a: "\<not> (month > 0 \<and> month mod 3 = 0) \<longrightarrow> new_mix = cm"
    by (auto simp: nm rebalance_def)
  have b: "new_mix \<noteq> cm \<longrightarrow>
          enable_rebalancing P \<and> total_value balances > 0
          \<and> needs_rebalancing (rebalancing_threshold P) target alloc"
    by (auto simp: nm rebalance_def target_def alloc_def split: if_splits)
  define half where "half =
               \<lparr>mix_SP500 = mix_SP500 target
                  + (mix_SP500 (adjustments target alloc) / total_adjustment (adjustments target alloc)) * 0.5,
                mix_NASDAQ = mix_NASDAQ target
                  + (mix_NASDAQ (adjustments target alloc) / total_adjustment (adjustments target alloc)) * 0.5,
                mix_TBill = mix_TBill target
                  + (mix_TBill (adjustments target alloc) / total_adjustment (adjustments target alloc)) * 0.5,
                mix_HYSA = mix_HYSA target
                  + (mix_HYSA (adjustments target alloc) / total_adjustment (adjustments target alloc)) * 0.5\<rparr>"
  have c: "total_adjustment (adjustments target alloc) > 0 \<and> new_mix = half
           \<and> new_mix \<noteq> target"
    if q: "enable_rebalancing P \<and> month > 0 \<and> month mod 3 = 0 \<and> total_value balances > 0
          \<and> rebalancing_threshold P = 0 \<and> mix_sum target = 1" and ne: "alloc \<noteq> target"
  proof -
    from q have sa: "mix_sum alloc = 1" by (simp add: alloc_def current_allocation_sum)
    from q have st: "mix_sum target = 1" by simp
    from ne have need: "needs_rebalancing 0 target alloc"
      unfolding needs_rebalancing_zero using mix_neq_iff [of alloc target] by blast
    have pos: "total_adjustment (adjustments target alloc) > 0"
      using st sa ne by (simp add: total_adjustment_pos)
    from q need have eq: "new_mix = adjusted_mix target alloc cm"
      by (simp add: nm rebalance_def target_def alloc_def)
    from adjusted_mix_neq_target [OF st sa ne] eq have "new_mix \<noteq> target" by simp
    with pos eq adjusted_mix_sum(2) [OF st sa pos, of cm] show ?thesis
      unfolding half_def by simp
  qed
  have d: "new_mix = cm" if "alloc = target" and "rebalancing_threshold P = 0"
    using that by (simp add: nm rebalance_def needs_rebalancing_def target_def alloc_def)
  have d2: "new_mix = cm"
    if "enable_rebalancing P \<and> month > 0 \<and> month mod 3 = 0 \<and> total_value balances > 0
          \<and> rebalancing_threshold P = 0 \<and> mix_sum target = 1" and "alloc = target"
    using that d by blast
  have e: "enable_rebalancing P \<and> month > 0 \<and> month mod 3 = 0 \<and> total_value balances > 0
          \<and> rebalancing_threshold P = 0 \<and> mix_sum target = 1 \<longrightarrow>
          (alloc \<noteq> target \<longrightarrow>
             total_adjustment (adjustments target alloc) > 0 \<and> new_mix = half
           \<and> new_mix \<noteq> target)
        \<and> (alloc = target \<longrightarrow> new_mix = cm)"
  proof (rule impI, rule conjI)
    assume q: "enable_rebalancing P \<and> month > 0 \<and> month mod 3 = 0 \<and> total_value balances > 0
          \<and> rebalancing_threshold P = 0 \<and> mix_sum target = 1"
    show "alloc \<noteq> target \<longrightarrow>
             total_adjustment (adjustments target alloc) > 0 \<and> new_mix = half
           \<and> new_mix \<noteq> target"
      by (rule impI) (rule c [OF q])
  next
    assume q: "enable_rebalancing P \<and> month > 0 \<and> month mod 3 = 0 \<and> total_value balances > 0
          \<and> rebalancing_threshold P = 0 \<and> mix_sum target = 1"
    show "alloc = target \<longrightarrow> new_mix = cm"
      by (rule impI) (rule d2 [OF q])
  qed
  have
    "(\<not> (month > 0 \<and> month mod 3 = 0) \<longrightarrow> new_mix = cm)
     \<and> (new_mix \<noteq> cm \<longrightarrow>
          enable_rebalancing P \<and> total_value balances > 0
          \<and> needs_rebalancing (rebalancing_threshold P) target alloc)
     \<and> (enable_rebalancing P \<and> month > 0 \<and> month mod 3 = 0 \<and> total_value balances > 0
          \<and> rebalancing_threshold P = 0 \<and> mix_sum target = 1 \<longrightarrow>
          (alloc \<noteq> target \<longrightarrow>
             total_adjustment (adjustments target alloc) > 0 \<and> new_mix = half
           \<and> new_mix \<noteq> target)
        \<and> (alloc = target \<longrightarrow> new_mix = cm))"
    by (rule conjI, rule a, rule conjI, rule b, rule e)
  then show ?thesis
    unfolding Let_def half_def new_mix_def target_def alloc_def balances_def month_def .
qed


theorem rebalancing_trigger_witness:
  "(enable_rebalancing (example_params\<lparr>rebalancing_threshold := 0\<rparr>)
   \<and> last (Month_Index example_state) > 0 \<and> last (Month_Index example_state) mod 3 = 0
   \<and> total_value (last (SP500 example_state), last (NASDAQ100 example_state),
         last (TBILL_3M example_state), last (HYSA example_state)) > 0
   \<and> rebalancing_threshold (example_params\<lparr>rebalancing_threshold := 0\<rparr>) = 0
   \<and> mix_sum (investment_mix (example_params\<lparr>rebalancing_threshold := 0\<rparr>)) = 1
   \<and> current_allocation (last (SP500 example_state), last (NASDAQ100 example_state),
         last (TBILL_3M example_state), last (HYSA example_state))
       \<noteq> investment_mix (example_params\<lparr>rebalancing_threshold := 0\<rparr>)
   \<and> snd (month_step (example_params\<lparr>rebalancing_threshold := 0\<rparr>) 0 (0, 0, 0)
         (example_state, investment_mix example_params)) =
       \<lparr>mix_SP500 = - (3 / 10), mix_NASDAQ = 39 / 80, mix_TBill = 39 / 80, mix_HYSA = 13 / 40\<rparr>)
   \<and> (snd (month_step (example_params\<lparr>rebalancing_threshold := 0\<rparr>) 0 (0, 0, 0)
         (example_state, investment_mix example_params)) \<noteq> investment_mix example_params
   \<and> needs_rebalancing (rebalancing_threshold (example_params\<lparr>rebalancing_threshold := 0\<rparr>))
        (investment_mix (example_params\<lparr>rebalancing_threshold := 0\<rparr>))
        (current_allocation (last (SP500 example_state), last (NASDAQ100 example_state),
          last (TBILL_3M example_state), last (HYSA example_state))))
   \<and> (current_allocation (last (SP500 balanced_state), last (NASDAQ100 balanced_state),
         last (TBILL_3M balanced_state), last (HYSA balanced_state))
       = investment_mix (example_params\<lparr>rebalancing_threshold := 0\<rparr>)
   \<and> snd (month_step (example_params\<lparr>rebalancing_threshold := 0\<rparr>) 0 (0, 0, 0)
         (balanced_state, \<lparr>mix_SP500 = 1, mix_NASDAQ = 0, mix_TBill = 0, mix_HYSA = 0\<rparr>)) =
       \<lparr>mix_SP500 = 1, mix_NASDAQ = 0, mix_TBill = 0, mix_HYSA = 0\<rparr>)
   \<and> (\<not> (last (Month_Index (fst (initial_state example_params))) > 0
         \<and> last (Month_Index (fst (initial_state example_params))) mod 3 = 0)
   \<and> snd (month_step example_params 0 (0, 0, 0)
         (fst (initial_state example_params),
          \<lparr>mix_SP500 = 1, mix_NASDAQ = 0, mix_TBill = 0, mix_HYSA = 0\<rparr>)) =
       \<lparr>mix_SP500 = 1, mix_NASDAQ = 0, mix_TBill = 0, mix_HYSA = 0\<rparr>)"
proof -
  note t = rebalancing_trigger [of example_state "example_params\<lparr>rebalancing_threshold := 0\<rparr>"
      0 "(0, 0, 0)" "investment_mix example_params", unfolded Let_def]
  have a: "enable_rebalancing (example_params\<lparr>rebalancing_threshold := 0\<rparr>)
   \<and> last (Month_Index example_state) > 0 \<and> last (Month_Index example_state) mod 3 = 0
   \<and> total_value (last (SP500 example_state), last (NASDAQ100 example_state),
         last (TBILL_3M example_state), last (HYSA example_state)) > 0
   \<and> rebalancing_threshold (example_params\<lparr>rebalancing_threshold := 0\<rparr>) = 0
   \<and> mix_sum (investment_mix (example_params\<lparr>rebalancing_threshold := 0\<rparr>)) = 1
   \<and> current_allocation (last (SP500 example_state), last (NASDAQ100 example_state),
         last (TBILL_3M example_state), last (HYSA example_state))
       \<noteq> investment_mix (example_params\<lparr>rebalancing_threshold := 0\<rparr>)
   \<and> snd (month_step (example_params\<lparr>rebalancing_threshold := 0\<rparr>) 0 (0, 0, 0)
         (example_state, investment_mix example_params)) =
       \<lparr>mix_SP500 = - (3 / 10), mix_NASDAQ = 39 / 80, mix_TBill = 39 / 80, mix_HYSA = 13 / 40\<rparr>"
    using t
    by (simp add: example_state_def example_params_def current_allocation_def
      total_value_def adjustments_def total_adjustment_def mix_sum_def)
  then have eq: "snd (month_step (example_params\<lparr>rebalancing_threshold := 0\<rparr>) 0 (0, 0, 0)
         (example_state, investment_mix example_params)) =
       \<lparr>mix_SP500 = - (3 / 10), mix_NASDAQ = 39 / 80, mix_TBill = 39 / 80, mix_HYSA = 13 / 40\<rparr>"
    by (elim conjE)
  have "\<lparr>mix_SP500 = - (3 / 10), mix_NASDAQ = 39 / 80, mix_TBill = 39 / 80, mix_HYSA = 13 / 40\<rparr>
      \<noteq> investment_mix example_params"
    by (simp add: example_params_def)
  then have ne: "snd (month_step (example_params\<lparr>rebalancing_threshold := 0\<rparr>) 0 (0, 0, 0)
         (example_state, investment_mix example_params)) \<noteq> investment_mix example_params"
    unfolding eq .
  from t [THEN conjunct2, THEN conjunct1, rule_format, OF ne]
  have b: "needs_rebalancing (rebalancing_threshold (example_params\<lparr>rebalancing_threshold := 0\<rparr>))
        (investment_mix (example_params\<lparr>rebalancing_threshold := 0\<rparr>))
        (current_allocation (last (SP500 example_state), last (NASDAQ100 example_state),
          last (TBILL_3M example_state), last (HYSA example_state)))"
    by (elim conjE)
  have c: "current_allocation (last (SP500 balanced_state), last (NASDAQ100 balanced_state),
         last (TBILL_3M balanced_state), last (HYSA balanced_state))
       = investment_mix (example_params\<lparr>rebalancing_threshold := 0\<rparr>)
   \<and> snd (month_step (example_params\<lparr>rebalancing_threshold := 0\<rparr>) 0 (0, 0, 0)
         (balanced_state, \<lparr>mix_SP500 = 1, mix_NASDAQ = 0, mix_TBill = 0, mix_HYSA = 0\<rparr>)) =
       \<lparr>mix_SP500 = 1, mix_NASDAQ = 0, mix_TBill = 0, mix_HYSA = 0\<rparr>"
    using rebalancing_trigger [of balanced_state "example_params\<lparr>rebalancing_threshold := 0\<rparr>"
      0 "(0, 0, 0)" "\<lparr>mix_SP500 = 1, mix_NASDAQ = 0, mix_TBill = 0, mix_HYSA = 0\<rparr>"]
    by (simp add: Let_def balanced_state_def example_params_def current_allocation_def
      total_value_def mix_sum_def)
  have d: "\<not> (last (Month_Index (fst (initial_state example_params))) > 0
         \<and> last (Month_Index (fst (initial_state example_params))) mod 3 = 0)
   \<and> snd (month_step example_params 0 (0, 0, 0)
         (fst (initial_state example_params),
          \<lparr>mix_SP500 = 1, mix_NASDAQ = 0, mix_TBill = 0, mix_HYSA = 0\<rparr>)) =
       \<lparr>mix_SP500 = 1, mix_NASDAQ = 0, mix_TBill = 0, mix_HYSA = 0\<rparr>"
    using rebalancing_trigger [of "fst (initial_state example_params)" example_params
      0 "(0, 0, 0)" "\<lparr>mix_SP500 = 1, mix_NASDAQ = 0, mix_TBill = 0, mix_HYSA = 0\<rparr>"]
    by (simp add: Let_def initial_state_def)
  show ?thesis
    by (rule conjI, rule a, rule conjI, rule conjI, rule ne, rule b, rule conjI, rule c, rule d)
qed

text \<open>
  C5: if the four fractions of the target mix sum to 1, then the mix a triggered
  adjustment computes sums to 1, the month's body keeps a mix summing to 1, and so the
  active mix sums to 1 at every month and at the end of a run.
\<close>

theorem rebalanced_mix_sums_to_one:
  assumes "mix_sum (investment_mix P) = 1"
  shows "(total_value b > 0
          \<and> total_adjustment (adjustments (investment_mix P) (current_allocation b)) > 0 \<longrightarrow>
            mix_sum (adjusted_mix (investment_mix P) (current_allocation b) cm) = 1)
       \<and> (mix_sum cm = 1 \<longrightarrow> mix_sum (snd (month_step P H rets (bd, cm))) = 1)
       \<and> mix_sum (active_mix P bd m) = 1
       \<and> (has_15_years seq \<longrightarrow>
            (\<exists>bd' cm' g'. run_pair P H seq g = Inr ((bd', cm'), g') \<and> mix_sum cm' = 1))"
proof -
  have a: "total_value b > 0
          \<and> total_adjustment (adjustments (investment_mix P) (current_allocation b)) > 0 \<longrightarrow>
            mix_sum (adjusted_mix (investment_mix P) (current_allocation b) cm) = 1"
    using assms by (simp add: adjusted_mix_sum(1) current_allocation_sum)
  have b: "mix_sum cm = 1 \<longrightarrow> mix_sum (snd (month_step P H rets (bd, cm))) = 1"
    using assms by (simp add: month_step_mix rebalance_sum)
  have c: "mix_sum (active_mix P bd m) = 1"
    using assms by (rule active_mix_sum)
  have d: "has_15_years seq \<longrightarrow>
            (\<exists>bd' cm' g'. run_pair P H seq g = Inr ((bd', cm'), g') \<and> mix_sum cm' = 1)"
  proof
    assume "has_15_years seq"
    from run_pair_inv [OF this, of P H g]
    obtain bd' where "run_pair P H seq g = Inr ((bd', active_mix P bd' 179), rng_skip 540 g)"
      by blast
    moreover have "mix_sum (active_mix P bd' 179) = 1" using assms by (rule active_mix_sum)
    ultimately show "\<exists>bd' cm' g'. run_pair P H seq g = Inr ((bd', cm'), g') \<and> mix_sum cm' = 1"
      by blast
  qed
  show ?thesis by (rule conjI, rule a, rule conjI, rule b, rule conjI, rule c, rule d)
qed

theorem rebalanced_mix_sums_to_one_witness:
  "mix_sum (investment_mix example_params) = 1
   \<and> total_value (70, 30, 30, 20) > 0
   \<and> total_adjustment (adjustments (investment_mix example_params)
        (current_allocation (70, 30, 30, 20))) > 0
   \<and> mix_sum (adjusted_mix (investment_mix example_params)
        (current_allocation (70, 30, 30, 20)) (investment_mix example_params)) = 1
   \<and> mix_sum (snd (month_step example_params 0 (0, 0, 0)
        (example_state, investment_mix example_params))) = 1
   \<and> mix_sum (active_mix example_params example_state 3) = 1
   \<and> has_15_years example_sequence
   \<and> (\<exists>bd' cm' g'. run_pair example_params 0 example_sequence (\<lambda>i. 0) = Inr ((bd', cm'), g')
        \<and> mix_sum cm' = 1)"
proof -
  have s: "mix_sum (investment_mix example_params) = 1"
    by (simp add: example_params_def mix_sum_def)
  have h: "has_15_years example_sequence"
    by (simp add: has_15_years_def example_sequence_def)
  have t: "total_value (70, 30, 30, 20) > 0
   \<and> total_adjustment (adjustments (investment_mix example_params)
        (current_allocation (70, 30, 30, 20))) > 0"
    by (simp add: example_params_def current_allocation_def total_value_def adjustments_def
        total_adjustment_def)
  from rebalanced_mix_sums_to_one [OF s, of "(70, 30, 30, 20)" "investment_mix example_params"
      0 "(0, 0, 0)" example_state 3 example_sequence "\<lambda>i. 0"] s h t
  show ?thesis by blast
qed

text \<open>
  C10: the quarterly update does not clamp the new fractions. At month 3 with balances
  70, 30, 30, 20 and target mix 0.2, 0.3, 0.3, 0.2 (threshold 0.05) the first asset is
  over-allocated, the check triggers, and the updated mix is -0.3, 0.4875, 0.4875, 0.325;
  the month's contribution of 100 is split with the share -30 for the first asset, whose
  balance goes from 70 to 40 at a return of 0.
\<close>

theorem rebalancing_negative_share:
  "needs_rebalancing (rebalancing_threshold example_params) (investment_mix example_params)
     (current_allocation (last (SP500 example_state), last (NASDAQ100 example_state),
         last (TBILL_3M example_state), last (HYSA example_state)))
   \<and> snd (month_step example_params 0 (0, 0, 0) (example_state, investment_mix example_params)) =
       \<lparr>mix_SP500 = - (3 / 10), mix_NASDAQ = 39 / 80, mix_TBill = 39 / 80, mix_HYSA = 13 / 40\<rparr>
   \<and> mix_SP500 (snd (month_step example_params 0 (0, 0, 0)
        (example_state, investment_mix example_params))) < 0
   \<and> contribution_function example_params 3 *
       mix_SP500 (snd (month_step example_params 0 (0, 0, 0)
        (example_state, investment_mix example_params))) = - 30
   \<and> SP500 (fst (month_step example_params 0 (0, 0, 0)
        (example_state, investment_mix example_params))) = [20, 35, 50, 70, 40]"
  by (simp add: month_step_def rebalance_def needs_rebalancing_def adjusted_mix_def Let_def
      example_state_def example_params_def current_allocation_def
      total_value_def adjustments_def total_adjustment_def mix_sum_def)

section \<open>Properties of the statistics and of the IRR computation\<close>

text \<open>
  C2, as stated, fails on the code: on a result set with no runs the function builds two
  empty arrays and calls the percentile on the first; what comes out is the IndexError the
  percentile raises on an empty array, the empty-percentile computation carried through,
  and no condition of the function's own.
\<close>

theorem milestone_statistics_empty_raises_percentile_error:
  "milestone_loop (5 * 12) (result_dict empty_results) ([], []) = Inr ([], [])
   \<and> np_percentile numpy_raise_on_empty [] 25 = Inl IndexError
   \<and> calculate_milestone_statistics numpy_raise_on_empty empty_results 5 =
       milestone_summary numpy_raise_on_empty [] []
   \<and> calculate_milestone_statistics numpy_raise_on_empty empty_results 5 = Inl IndexError"
  by (simp add: calculate_milestone_statistics_def milestone_summary_def
      numpy_raise_on_empty_def empty_results_def)

text \<open>
  C2 (amended): when a result set with no runs reaches
  \<^verbatim>\<open>calculate_milestone_statistics\<close>, the function raises no condition of its own: it
  passes the empty arrays on to the percentile computation, and the exception the
  percentile raises on the empty array is the function's outcome.
\<close>

theorem milestone_statistics_empty:
  assumes "result_dict R = []"
  shows "calculate_milestone_statistics L R year = milestone_summary L [] []
       \<and> (\<forall>e. np_percentile L [] 25 = Inl e \<longrightarrow>
            calculate_milestone_statistics L R year = Inl e)"
proof -
  have eq: "calculate_milestone_statistics L R year = milestone_summary L [] []"
    using assms by (simp add: calculate_milestone_statistics_def)
  have a: "\<forall>e. np_percentile L [] 25 = Inl e \<longrightarrow> milestone_summary L [] [] = Inl e"
    by (simp add: milestone_summary_def)
  from a show ?thesis unfolding eq by simp
qed

theorem milestone_statistics_empty_witness:
  "result_dict empty_results = []
   \<and> np_percentile numpy_raise_on_empty [] 25 = Inl IndexError
   \<and> calculate_milestone_statistics numpy_raise_on_empty empty_results 3 =
       milestone_summary numpy_raise_on_empty [] []
   \<and> calculate_milestone_statistics numpy_raise_on_empty empty_results 3 = Inl IndexError"
proof -
  have e: "result_dict empty_results = []" by (simp add: empty_results_def)
  have a: "np_percentile numpy_raise_on_empty [] 25 = Inl IndexError"
    by (simp add: numpy_raise_on_empty_def)
  from milestone_statistics_empty [OF e, of numpy_raise_on_empty 3] a
  have c: "calculate_milestone_statistics numpy_raise_on_empty empty_results 3 =
       milestone_summary numpy_raise_on_empty [] []
     \<and> calculate_milestone_statistics numpy_raise_on_empty empty_results 3 = Inl IndexError"
    by blast
  show ?thesis by (rule conjI, rule e, rule conjI, rule a, rule c)
qed

lemma py_index_nth:
  "0 \<le> i \<Longrightarrow> i < int (length xs) \<Longrightarrow> py_index xs i = Inr (xs ! nat i)"
  by (simp add: py_index_def)

lemma py_index_last: "xs \<noteq> [] \<Longrightarrow> py_index xs (- 1) = Inr (last xs)"
  by (cases xs rule: rev_cases) (simp_all add: py_index_def nth_append)

lemma baseline_loop_ok:
  "1 + H \<noteq> 0 \<Longrightarrow> (\<And>k. k \<in> set ks \<Longrightarrow> 1 \<le> k \<and> k < int (length b)) \<Longrightarrow>
   baseline_loop H b ks = Inr (map (\<lambda>k. - (b ! nat k / (1 + H) - b ! nat (k - 1))) ks)"
proof (induction ks)
  case Nil
  then show ?case by simp
next
  case (Cons k ks)
  have k: "1 \<le> k \<and> k < int (length b)" using Cons.prems by simp
  have rest: "baseline_loop H b ks = Inr (map (\<lambda>k. - (b ! nat k / (1 + H) - b ! nat (k - 1))) ks)"
    using Cons.prems by (intro Cons.IH) simp_all
  from k have "py_index b (k - 1) = Inr (b ! nat (k - 1))" "py_index b k = Inr (b ! nat k)"
    by (simp_all add: py_index_nth)
  with rest Cons.prems(1) show ?case by simp
qed

lemma baseline_cash_flows_shape:
  assumes "shape rd n" and "1 + H \<noteq> 0"
  shows "baseline_cash_flows H rd =
     Inr ([- (Baseline rd ! 0)]
            @ map (\<lambda>k. - (Baseline rd ! nat k / (1 + H) - Baseline rd ! nat (k - 1))) [1..int n]
            @ [Baseline rd ! n],
          [0] @ map (\<lambda>k. real_of_int k / 12) [1..int n] @ [15])"
proof -
  from assms have len: "length (Baseline rd) = Suc n" "length (Month_Index rd) = Suc n"
    by (simp_all add: shape_def)
  have r: "py_range 1 (int (length (Month_Index rd)) - 1 + 1) = [1..int n]"
    by (simp add: py_range_def len)
  have i0: "py_index (Baseline rd) 0 = Inr (Baseline rd ! 0)"
    using len by (simp add: py_index_nth)
  from len have ne: "Baseline rd \<noteq> []" by auto
  have il: "py_index (Baseline rd) (- 1) = Inr (Baseline rd ! n)"
    using len py_index_last [OF ne] last_nth_Suc [of "Baseline rd" n] by simp
  have lp: "baseline_loop H (Baseline rd) [1..int n] =
      Inr (map (\<lambda>k. - (Baseline rd ! nat k / (1 + H) - Baseline rd ! nat (k - 1))) [1..int n])"
    using assms(2) by (rule baseline_loop_ok) (simp add: len)
  show ?thesis
    unfolding baseline_cash_flows_def Let_def r by (simp add: i0 il lp)
qed

text \<open>
  At the monthly rate -1 the division by \<open>1 + H\<close> fails in the first month of a run, and
  with it the whole batch of \<^verbatim>\<open>calculate_all_irrs\<close>, whatever the solver.
\<close>

lemma baseline_cash_flows_zero_division:
  "baseline_cash_flows (- 1) growth_run = Inl ZeroDivisionError"
  by (simp add: baseline_cash_flows_def py_index_def py_range_def Let_def growth_run_def
      upto_rec1)

lemma calculate_all_irrs_zero_division:
  "calculate_all_irrs newton (empty_results\<lparr>result_dict := [growth_run]\<rparr>) (\<lambda>m. 0) (- 1) =
     Inl ZeroDivisionError"
proof -
  have p: "portfolio_cash_flows (\<lambda>m. 0) growth_run = Inr ([- 150, 0, 170], [0, 1 / 12, 15])"
    by (simp add: portfolio_cash_flows_def portfolio_total_def py_index_def py_range_def
        Let_def growth_run_def upto_rec1)
  show ?thesis
    by (simp add: calculate_all_irrs_def empty_results_def p baseline_cash_flows_zero_division)
qed

text \<open>
  C7: for a run of \<open>n\<close> months (180 for a run of the engine), a monthly cash rate \<open>H\<close>
  with \<open>1 + H\<close> not 0 and every month \<open>k\<close> in 1..\<open>n\<close>, entry \<open>k\<close> of the baseline's
  cash flows, at time \<open>k / 12\<close>, is the outflow \<open>- c\<close> of the implied contribution
  \<open>c = Baseline[k] / (1 + H) - Baseline[k - 1]\<close>, the amount for which
  \<open>Baseline[k] = (Baseline[k - 1] + c) * (1 + H)\<close>; the contribution function is not an
  argument of the computation.
\<close>

theorem baseline_cash_flow_implied:
  assumes "shape rd n" and "1 \<le> k" and "k \<le> n" and "1 + H \<noteq> 0"
  shows "\<exists>cash_flows time_offsets.
           baseline_cash_flows H rd = Inr (cash_flows, time_offsets)
         \<and> baseline_irr newton H rd = calculate_irr newton cash_flows time_offsets
         \<and> cash_flows ! k = - (Baseline rd ! k / (1 + H) - Baseline rd ! (k - 1))
         \<and> time_offsets ! k = real k / 12
         \<and> Baseline rd ! k = (Baseline rd ! (k - 1) + - (cash_flows ! k)) * (1 + H)"
proof -
  define f where "f = (\<lambda>j. - (Baseline rd ! nat j / (1 + H) - Baseline rd ! nat (j - 1)))"
  define cfs where "cfs = [- (Baseline rd ! 0)] @ map f [1..int n] @ [Baseline rd ! n]"
  define ts where "ts = [0] @ map (\<lambda>j. real_of_int j / 12) [1..int n] @ [15::real]"
  have run: "baseline_cash_flows H rd = Inr (cfs, ts)"
    unfolding cfs_def ts_def f_def by (rule baseline_cash_flows_shape [OF assms(1) assms(4)])
  from assms(2) obtain j where j: "k = Suc j" by (cases k) simp_all
  with assms(3) have jn: "j < n" by simp
  then have up: "[1..int n] ! j = 1 + int j" by simp
  from jn have lj: "j < length [1..int n]" by simp
  have ck: "cfs ! k = f (1 + int j)"
    unfolding cfs_def j using lj up by (simp add: nth_append)
  have tk: "ts ! k = real_of_int (1 + int j) / 12"
    unfolding ts_def j using lj up by (simp add: nth_append)
  have nat1: "nat (1 + int j) = Suc j" "nat (1 + int j - 1) = j" by simp_all
  have c1: "cfs ! k = - (Baseline rd ! k / (1 + H) - Baseline rd ! (k - 1))"
    using ck nat1 by (simp add: f_def j)
  have c2: "ts ! k = real k / 12"
    using tk by (simp add: j)
  have c3: "Baseline rd ! k = (Baseline rd ! (k - 1) + - (cfs ! k)) * (1 + H)"
    unfolding c1 using assms(4) by (simp add: field_simps)
  have c0: "baseline_irr newton H rd = calculate_irr newton cfs ts"
    by (simp add: baseline_irr_def run)
  from run c0 c1 c2 c3 show ?thesis by blast
qed

theorem baseline_cash_flow_implied_witness:
  "shape example_state 3 \<and> (1::nat) \<le> 2 \<and> (2::nat) \<le> 3 \<and> (1::real) + 0 \<noteq> 0
   \<and> (\<exists>cash_flows time_offsets.
        baseline_cash_flows 0 example_state = Inr (cash_flows, time_offsets)
      \<and> cash_flows ! 2 = - 100 \<and> time_offsets ! 2 = 2 / 12
      \<and> Baseline example_state ! 2 = (Baseline example_state ! 1 + - (cash_flows ! 2)) * (1 + 0))"
proof -
  have s: "shape example_state 3"
    by (simp add: shape_def example_state_def upt_rec)
  have h: "(1::real) + 0 \<noteq> 0" by simp
  from baseline_cash_flow_implied
    [where rd = example_state and n = 3 and k = 2 and H = 0 and newton = root_at_zero_solver,
     OF s _ _ h] s
  show ?thesis by (auto simp: example_state_def)
qed

lemma portfolio_total_ok:
  assumes "shape rd n" and "i = 0 \<or> i = - 1"
  shows "\<exists>v. portfolio_total rd i = Inr v"
proof -
  have ix: "\<exists>v. py_index xs i = Inr v" if "length xs = Suc n" for xs :: "real list"
    using that assms(2) by (auto simp: py_index_def)
  from assms(1) have len: "length (SP500 rd) = Suc n" "length (NASDAQ100 rd) = Suc n"
    "length (TBILL_3M rd) = Suc n" "length (HYSA rd) = Suc n"
    "length (Emergency_fund rd) = Suc n"
    by (simp_all add: shape_def)
  from ix [OF len(1)] ix [OF len(2)] ix [OF len(3)] ix [OF len(4)] ix [OF len(5)]
  show ?thesis
    by (auto simp: portfolio_total_def)
qed

lemma portfolio_cash_flows_ok:
  assumes "shape rd n"
  shows "\<exists>c. portfolio_cash_flows cf rd = Inr c"
proof -
  from portfolio_total_ok [OF assms, of 0] obtain a where a: "portfolio_total rd 0 = Inr a"
    by auto
  from portfolio_total_ok [OF assms, of "- 1"] obtain b where b: "portfolio_total rd (- 1) = Inr b"
    by auto
  show ?thesis by (simp add: portfolio_cash_flows_def Let_def a b)
qed

lemma append_irr_eq: "append_irr a v = a @ [x * 100. Num x \<leftarrow> [v]]"
  by (cases v) (simp_all add: append_irr_def)

lemma irrs_loop_ok:
  assumes "1 + H \<noteq> 0" and "\<And>rd. rd \<in> set rds \<Longrightarrow> \<exists>n. shape rd n"
  shows "irrs_loop newton cf H rds (a, b) =
     Inr (a @ [x * 100. Num x \<leftarrow> map (portfolio_irr newton cf) rds],
          b @ [x * 100. Num x \<leftarrow> map (baseline_irr newton H) rds])"
  using assms
proof (induction rds arbitrary: a b)
  case Nil
  then show ?case by simp
next
  case (Cons rd rds)
  from Cons.prems obtain n where sh: "shape rd n" by auto
  from portfolio_cash_flows_ok [OF sh, of cf]
  obtain pc pt where p: "portfolio_cash_flows cf rd = Inr (pc, pt)" by auto
  from baseline_cash_flows_shape [OF sh Cons.prems(1)]
  obtain bc bt where q: "baseline_cash_flows H rd = Inr (bc, bt)" by auto
  have rest: "irrs_loop newton cf H rds (a', b') =
     Inr (a' @ [x * 100. Num x \<leftarrow> map (portfolio_irr newton cf) rds],
          b' @ [x * 100. Num x \<leftarrow> map (baseline_irr newton H) rds])" for a' b'
    using Cons.prems by (intro Cons.IH) simp_all
  have pi: "portfolio_irr newton cf rd = calculate_irr newton pc pt"
    by (simp add: portfolio_irr_def p)
  have bi: "baseline_irr newton H rd = calculate_irr newton bc bt"
    by (simp add: baseline_irr_def q)
  show ?case
    by (simp add: p q rest pi bi append_irr_eq)
qed

text \<open>
  C8: when the solver raises (a numerical error, or no convergence within the 100
  iterations from the start value 0.05), \<^verbatim>\<open>calculate_irr\<close> returns \<^verbatim>\<open>nan\<close>; and on
  the runs of a simulation, at a monthly cash rate \<open>H\<close> with \<open>1 + H\<close> not 0,
  \<^verbatim>\<open>calculate_all_irrs\<close> returns, whatever the solver does on each run, the IRRs (in
  percent) of exactly the runs whose IRR is not \<^verbatim>\<open>nan\<close>, in order, for the portfolio
  and for the baseline.
\<close>

theorem calculate_all_irrs_drops_failed_runs:
  assumes "\<forall>rd\<in>set (result_dict R). \<exists>n. shape rd n" and "1 + H \<noteq> 0"
  shows "(\<forall>e. newton (npv cash_flows time_offsets) 0.05
                 (npv_derivative cash_flows time_offsets) 100 = Inl e \<longrightarrow>
              calculate_irr newton cash_flows time_offsets = NaN)
       \<and> (\<exists>res. calculate_all_irrs newton R cf H = Inr res
            \<and> irr_returns res =
                [x * 100. Num x \<leftarrow> map (portfolio_irr newton cf) (result_dict R)]
            \<and> baseline_irr_returns res =
                [x * 100. Num x \<leftarrow> map (baseline_irr newton H) (result_dict R)])"
proof -
  have a: "\<forall>e. newton (npv cash_flows time_offsets) 0.05
                 (npv_derivative cash_flows time_offsets) 100 = Inl e \<longrightarrow>
              calculate_irr newton cash_flows time_offsets = NaN"
    by (simp add: calculate_irr_def)
  have "irrs_loop newton cf H (result_dict R) ([], []) =
     Inr ([] @ [x * 100. Num x \<leftarrow> map (portfolio_irr newton cf) (result_dict R)],
          [] @ [x * 100. Num x \<leftarrow> map (baseline_irr newton H) (result_dict R)])"
    using assms by (intro irrs_loop_ok) simp_all
  then have b: "\<exists>res. calculate_all_irrs newton R cf H = Inr res
            \<and> irr_returns res =
                [x * 100. Num x \<leftarrow> map (portfolio_irr newton cf) (result_dict R)]
            \<and> baseline_irr_returns res =
                [x * 100. Num x \<leftarrow> map (baseline_irr newton H) (result_dict R)]"
    by (simp add: calculate_all_irrs_def)
  from a b show ?thesis by (rule conjI)
qed

lemma example_runs_shape: "shape flat_run 0" "shape growth_run 1"
  by (simp_all add: shape_def flat_run_def growth_run_def)

lemma example_runs_irr:
  "portfolio_irr root_at_zero_solver (\<lambda>m. 0) flat_run = Num 0"
  "portfolio_irr root_at_zero_solver (\<lambda>m. 0) growth_run = NaN"
  "baseline_irr root_at_zero_solver 0 flat_run = Num 0"
  "baseline_irr root_at_zero_solver 0 growth_run = Num 0"
  by (simp_all add: portfolio_irr_def baseline_irr_def portfolio_cash_flows_def
      baseline_cash_flows_def portfolio_total_def py_index_def py_range_def Let_def
      calculate_irr_def root_at_zero_solver_def npv_def flat_run_def growth_run_def upto_rec1)

theorem calculate_all_irrs_drops_failed_runs_witness:
  "(\<exists>n. shape flat_run n) \<and> (\<exists>n. shape growth_run n) \<and> (1::real) + 0 \<noteq> 0
   \<and> root_at_zero_solver (npv [- 150, 0, 170] [0, 1 / 12, 15]) 0.05
        (npv_derivative [- 150, 0, 170] [0, 1 / 12, 15]) 100 = Inl RuntimeError
   \<and> calculate_irr root_at_zero_solver [- 150, 0, 170] [0, 1 / 12, 15] = NaN
   \<and> portfolio_irr root_at_zero_solver (\<lambda>m. 0) growth_run = NaN
   \<and> (\<exists>res. calculate_all_irrs root_at_zero_solver
          (empty_results\<lparr>result_dict := [flat_run, growth_run, flat_run]\<rparr>) (\<lambda>m. 0) 0 = Inr res
        \<and> irr_returns res = [0, 0] \<and> baseline_irr_returns res = [0, 0, 0])"
proof -
  have s: "\<forall>rd\<in>set (result_dict (empty_results\<lparr>result_dict := [flat_run, growth_run, flat_run]\<rparr>)).
      \<exists>n. shape rd n"
    using example_runs_shape by auto
  have r: "root_at_zero_solver (npv [- 150, 0, 170] [0, 1 / 12, 15]) 0.05
        (npv_derivative [- 150, 0, 170] [0, 1 / 12, 15]) 100 = Inl RuntimeError"
    by (simp add: root_at_zero_solver_def npv_def)
  have h: "(1::real) + 0 \<noteq> 0" by simp
  from calculate_all_irrs_drops_failed_runs
    [OF s h, of root_at_zero_solver "[- 150, 0, 170]" "[0, 1 / 12, 15]" "\<lambda>m. 0"]
    example_runs_shape r
  show ?thesis
    by (auto simp: example_runs_irr)
qed

section \<open>From the historical table to the result set\<close>

text \<open>
  The sequences the caller keeps (all three series present) have fifteen years of each
  series; on such sequences the simulation returns, and every trajectory of its result set
  is the trajectory of one run (\<open>run_pair\<close>) at the monthly rate of the cash-equivalent
  yield, with the months 0 to 180 in every series.
\<close>

lemma dict_get_all_length: "dict_get_all d ys = Inr vs \<Longrightarrow> length vs = length ys"
  by (induction ys arbitrary: vs) (auto split: sum.splits)

lemma window_series_length:
  "window_series d years s (s + 14) = Inr (Some vs) \<Longrightarrow> length vs = 15"
  by (auto simp: window_series_def py_range_def split: if_splits sum.splits
      dest!: dict_get_all_length)

lemma make_sequence_complete:
  assumes "make_sequence mr sp nq tb s = Inr q" and "is_complete q"
  shows "has_15_years q"
  using assms
  by (auto simp: make_sequence_def Let_def is_complete_def has_15_years_def
      split: sum.splits dest!: window_series_length)

lemma sequences_loop_complete:
  "sequences_loop mr sp nq tb ss = Inr qs \<Longrightarrow> q \<in> set qs \<Longrightarrow> is_complete q \<Longrightarrow>
   has_15_years q"
proof (induction ss arbitrary: qs)
  case Nil
  then show ?case by simp
next
  case (Cons s ss)
  then show ?case
    by (auto split: sum.splits dest: make_sequence_complete)
qed

lemma get_15_year_sequences_complete:
  assumes "get_15_year_sequences mr = Inr qs" and "q \<in> set qs" and "is_complete q"
  shows "has_15_years q"
proof -
  from assms(1) obtain sp nq tb ss where "sequences_loop mr sp nq tb ss = Inr qs"
    by (auto simp: get_15_year_sequences_def Let_def split: if_splits)
  from sequences_loop_complete [OF this assms(2,3)] show ?thesis .
qed

lemma years_loop_Inr:
  "years_loop P H seq ys s = Inr r \<Longrightarrow> y \<in> set ys \<Longrightarrow>
   (\<exists>a. subscript (seq_SP500 seq) y = Inr a) \<and> (\<exists>a. subscript (seq_NASDAQ100 seq) y = Inr a)
   \<and> (\<exists>a. subscript (seq_TBILL_3M seq) y = Inr a)"
proof (induction ys arbitrary: s)
  case Nil
  then show ?case by simp
next
  case (Cons x xs)
  obtain st g where s: "s = (st, g)" by (cases s)
  from Cons.prems(1) obtain s' where
    h: "(\<exists>a. subscript (seq_SP500 seq) x = Inr a) \<and> (\<exists>a. subscript (seq_NASDAQ100 seq) x = Inr a)
       \<and> (\<exists>a. subscript (seq_TBILL_3M seq) x = Inr a)"
    and t: "years_loop P H seq xs s' = Inr r"
    unfolding s by (auto split: sum.splits prod.splits)
  show ?case
  proof (cases "y = x")
    case True
    with h show ?thesis by simp
  next
    case False
    with Cons.prems(2) have "y \<in> set xs" by simp
    with t show ?thesis by (rule Cons.IH)
  qed
qed

lemma subscript_Inr_length:
  "subscript series 14 = Inr a \<Longrightarrow> (case series of None \<Rightarrow> False | Some xs \<Rightarrow> 15 \<le> length xs)"
  by (auto simp: subscript_def split: option.splits if_splits)

lemma run_pair_Inr_has_15_years:
  assumes "run_pair P H seq g = Inr r"
  shows "has_15_years seq"
proof -
  have "(14::nat) \<in> set [0..<15]" by simp
  from years_loop_Inr [OF assms [unfolded run_pair_def] this]
  show ?thesis
    by (auto simp: has_15_years_def dest: subscript_Inr_length)
qed

lemma run_pair_shape:
  assumes "run_pair P H seq g = Inr ((bd, cm), g')"
  shows "shape bd 180"
proof -
  from run_pair_inv [OF run_pair_Inr_has_15_years [OF assms], of P H g] assms
  show ?thesis by (auto simp: traj_inv_def)
qed

lemma iterations_loop_results:
  "iterations_loop P H i seq its (res, g) = Inr (res', g') \<Longrightarrow> rd \<in> set (result_dict res') \<Longrightarrow>
   rd \<in> set (result_dict res) \<or> (\<exists>g1 cm g2. run_pair P H seq g1 = Inr ((rd, cm), g2))"
proof (induction its arbitrary: res g)
  case Nil
  then show ?case by simp
next
  case (Cons it its)
  from Cons.prems(1) obtain bd cm g1 where
    r: "run_pair P H seq g = Inr ((bd, cm), g1)"
    and l: "iterations_loop P H i seq its
            (res\<lparr>iteration := iteration res @ [it],
                 sequence_index := sequence_index res @ [i],
                 sequence_start_year := sequence_start_year res @ [start_year seq],
                 sequence_end_year := sequence_end_year res @ [end_year seq],
                 result_dict := result_dict res @ [bd]\<rparr>, g1) = Inr (res', g')"
    by (auto split: sum.splits)
  from Cons.IH [OF l Cons.prems(2)] r show ?case by auto
qed

lemma sequences_run_results:
  "sequences_run P H xs (res, g) = Inr (res', g') \<Longrightarrow> rd \<in> set (result_dict res') \<Longrightarrow>
   rd \<in> set (result_dict res)
   \<or> (\<exists>seq\<in>snd ` set xs. \<exists>g1 cm g2. run_pair P H seq g1 = Inr ((rd, cm), g2))"
proof (induction xs arbitrary: res g)
  case Nil
  then show ?case by simp
next
  case (Cons x xs)
  obtain i seq where x: "x = (i, seq)" by (cases x)
  from Cons.prems(1) obtain res1 g1 where
    a: "iterations_loop P H i seq (py_range 0 (total_iterations P)) (res, g) = Inr (res1, g1)"
    and b: "sequences_run P H xs (res1, g1) = Inr (res', g')"
    unfolding x by (auto split: sum.splits)
  from Cons.IH [OF b Cons.prems(2)] iterations_loop_results [OF a, of rd]
  show ?case unfolding x by auto
qed

lemma run_investment_simulation_results:
  assumes "run_investment_simulation P seqs g = Inr (res, g')" and "rd \<in> set (result_dict res)"
  shows "\<exists>seq\<in>set seqs. \<exists>g1 cm g2.
           run_pair P (avg_monthly_return (hysa_apy P)) seq g1 = Inr ((rd, cm), g2)
         \<and> has_15_years seq \<and> shape rd 180"
proof -
  from sequences_run_results [OF assms(1) [unfolded run_investment_simulation_rate] assms(2)]
  obtain i seq g1 cm g2 where s: "(i, seq) \<in> set (zip [0..<length seqs] seqs)"
    and r: "run_pair P (avg_monthly_return (hysa_apy P)) seq g1 = Inr ((rd, cm), g2)"
    by auto
  from s have "seq \<in> set seqs" by (rule set_zip_rightD)
  with r run_pair_Inr_has_15_years [OF r] run_pair_shape [OF r] show ?thesis by blast
qed

lemma iterations_loop_total:
  assumes "has_15_years seq"
  shows "\<exists>r. iterations_loop P H i seq its (res, g) = Inr r"
proof (induction its arbitrary: res g)
  case Nil
  then show ?case by simp
next
  case (Cons it its)
  from run_pair_inv [OF assms, of P H g] obtain bd where
    "run_pair P H seq g = Inr ((bd, active_mix P bd 179), rng_skip 540 g)" by blast
  then show ?case using Cons.IH by simp
qed

lemma sequences_run_total:
  assumes "\<And>seq. seq \<in> snd ` set xs \<Longrightarrow> has_15_years seq"
  shows "\<exists>r. sequences_run P H xs (res, g) = Inr r"
  using assms
proof (induction xs arbitrary: res g)
  case Nil
  then show ?case by simp
next
  case (Cons x xs)
  obtain i seq where x: "x = (i, seq)" by (cases x)
  from Cons.prems have "has_15_years seq" unfolding x by simp
  from iterations_loop_total [OF this, of P H i "py_range 0 (total_iterations P)" res g]
  obtain res1 g1 where
    a: "iterations_loop P H i seq (py_range 0 (total_iterations P)) (res, g) = Inr (res1, g1)"
    by auto
  have "\<exists>r. sequences_run P H xs (res1, g1) = Inr r"
    using Cons.prems by (intro Cons.IH) simp
  with a show ?case unfolding x by simp
qed

lemma run_investment_simulation_total:
  assumes "\<And>seq. seq \<in> set seqs \<Longrightarrow> has_15_years seq"
  shows "\<exists>res g'. run_investment_simulation P seqs g = Inr (res, g')"
proof -
  have "\<exists>r. sequences_run P (avg_monthly_return (hysa_apy P)) (zip [0..<length seqs] seqs)
       (\<lparr>iteration = [], sequence_index = [], sequence_start_year = [],
         sequence_end_year = [], result_dict = [],
         results_name = simulation_name P, results_mix = investment_mix P\<rparr>, rng_skip 12 g) = Inr r"
    using assms by (intro sequences_run_total) (auto dest: set_zip_rightD)
  then show ?thesis by (auto simp: run_investment_simulation_rate)
qed

end
